theory Spec2Isabelle
  imports Main "HOL-Library.Word" "HOL-Library.Signed_Division" "HOL-Library.Char_ord"
    "HOL-Library.List_Lexorder" "HOL-Library.Stream"
begin

unbundle bit_operations_syntax

section \<open>Formatting verbs of fmt and strconv\<close>

text \<open>
  Go strings are byte sequences; \<^typ>\<open>string\<close> is a list of bytes. The verbs \<open>%s\<close>,
  \<open>%d\<close> and \<open>%+v\<close> of \<open>fmt.Sprintf\<close> are written out as concatenation; \<open>%d\<close> (and
  \<open>%+v\<close> on an unsigned integer) prints the decimal digits without padding.
\<close>

definition digit_char :: "nat \<Rightarrow> char" where
  "digit_char d = ''0123456789'' ! d"

fun dec_nat :: "nat \<Rightarrow> string" where
  "dec_nat n = (if n < 10 then [digit_char n] else dec_nat (n div 10) @ [digit_char (n mod 10)])"

declare dec_nat.simps [simp del]

definition dec_int :: "int \<Rightarrow> string" where
  "dec_int i = (if i < 0 then CHR ''-'' # dec_nat (nat (- i)) else dec_nat (nat i))"

definition hex_char :: "nat \<Rightarrow> char" where
  "hex_char d = ''0123456789abcdef'' ! d"

text \<open>The two bytes of the micro sign in UTF-8, as the source file spells \<open>latency=%d..s\<close>.\<close>

definition micro :: string where
  "micro = [CHR 0xC2, CHR 0xB5]"

section \<open>The public API messages (package pb)\<close>

text \<open>
  Modelled from the spec: the messages of package pb, the generated Go code of the public
  API, which is not among the sources. They are the tap event of the specification's data
  model, with the fields that tap.go reads, laid out as the protobuf compiler lays out Go
  structs. A message pointer is an \<^typ>\<open>'a option\<close> (\<open>None\<close> is nil), a oneof is an
  optional wrapper, and every getter is nil-safe: on a nil receiver, or on a oneof that
  holds another wrapper, it returns the zero value of its result type. A wrapper of a
  message-typed oneof case holds a pointer that may itself be nil. The wrapper types whose
  Go name ends in an underscore (\<open>HttpMethod_Registered_\<close>,
  \<open>TapEvent_Http_RequestInit_\<close>, ...) carry the suffix \<open>_w\<close> here.

  A Go map is an optional association list: \<open>None\<close> is the nil map, keys are distinct, and
  the order of the list stands for the order in which one \<open>range\<close> over the map visits
  the entries (which the Go runtime leaves open).
\<close>

type_synonym go_map = "(string \<times> string) list option"

definition map_index :: "go_map \<Rightarrow> string \<Rightarrow> string option" where
  "map_index m k = (case m of None \<Rightarrow> None | Some kvs \<Rightarrow> map_of kvs k)"

definition map_range :: "go_map \<Rightarrow> (string \<times> string) list" where
  "map_range m = (case m of None \<Rightarrow> [] | Some kvs \<Rightarrow> kvs)"

record IPv6 =
  First :: "64 word"
  Last :: "64 word"

datatype isIPAddress_Ip = IPAddress_Ipv4 "32 word" | IPAddress_Ipv6 "IPv6 option"

record IPAddress =
  IPAddress_Ip :: "isIPAddress_Ip option"

record TcpAddress =
  TcpAddress_Ip :: "IPAddress option"
  TcpAddress_Port :: "32 word"

record EndpointMeta =
  EndpointMeta_Labels :: go_map

record RouteMeta =
  RouteMeta_Labels :: go_map

record StreamId =
  StreamId_Base :: "32 word"
  StreamId_Stream :: "64 word"

record Duration =
  Seconds :: "64 word"
  Nanos :: "32 word"

datatype isHttpMethod_Type = HttpMethod_Registered_w "32 word" | HttpMethod_Unregistered string

record HttpMethod =
  HttpMethod_Type :: "isHttpMethod_Type option"

datatype isScheme_Type = Scheme_Registered_w "32 word" | Scheme_Unregistered string

record Scheme =
  Scheme_Type :: "isScheme_Type option"

datatype isEos_End = Eos_GrpcStatusCode "32 word" | Eos_ResetErrorCode "32 word"

record Eos =
  Eos_End :: "isEos_End option"

record RequestInit =
  RequestInit_Id :: "StreamId option"
  RequestInit_Method :: "HttpMethod option"
  RequestInit_Scheme :: "Scheme option"
  RequestInit_Authority :: string
  RequestInit_Path :: string

record ResponseInit =
  ResponseInit_Id :: "StreamId option"
  ResponseInit_SinceRequestInit :: "Duration option"
  ResponseInit_HttpStatus :: "32 word"

record ResponseEnd =
  ResponseEnd_Id :: "StreamId option"
  ResponseEnd_SinceRequestInit :: "Duration option"
  ResponseEnd_SinceResponseInit :: "Duration option"
  ResponseEnd_ResponseBytes :: "64 word"
  ResponseEnd_Eos :: "Eos option"

datatype isTapEvent_Http_Event =
    TapEvent_Http_RequestInit_w "RequestInit option"
  | TapEvent_Http_ResponseInit_w "ResponseInit option"
  | TapEvent_Http_ResponseEnd_w "ResponseEnd option"

record TapEvent_Http =
  Http_Event :: "isTapEvent_Http_Event option"

text \<open>
  The oneof \<open>event\<close> of a TapEvent has the single case \<open>http\<close>, and tap.go reads it
  through \<open>GetHttp\<close> only, so the field holds what \<open>GetHttp\<close> returns. The proxy
  direction is the enum's int32: 0 UNKNOWN, 1 INBOUND, 2 OUTBOUND.
\<close>

record TapEvent =
  Source :: "TcpAddress option"
  SourceMeta :: "EndpointMeta option"
  Destination :: "TcpAddress option"
  DestinationMeta :: "EndpointMeta option"
  TapEvent_RouteMeta :: "RouteMeta option"
  TapEvent_ProxyDirection :: "32 word"
  Http :: "TapEvent_Http option"

definition TapEvent_UNKNOWN :: "32 word" where "TapEvent_UNKNOWN = 0"
definition TapEvent_INBOUND :: "32 word" where "TapEvent_INBOUND = 1"
definition TapEvent_OUTBOUND :: "32 word" where "TapEvent_OUTBOUND = 2"

subsection \<open>Getters\<close>

definition GetIp :: "TcpAddress option \<Rightarrow> IPAddress option" where
  "GetIp a = (case a of None \<Rightarrow> None | Some x \<Rightarrow> TcpAddress_Ip x)"

definition GetPort :: "TcpAddress option \<Rightarrow> 32 word" where
  "GetPort a = (case a of None \<Rightarrow> 0 | Some x \<Rightarrow> TcpAddress_Port x)"

definition GetIpv6 :: "IPAddress option \<Rightarrow> IPv6 option" where
  "GetIpv6 ip = (case ip of None \<Rightarrow> None
     | Some x \<Rightarrow> (case IPAddress_Ip x of Some (IPAddress_Ipv6 v) \<Rightarrow> v | _ \<Rightarrow> None))"

definition GetIpv4 :: "IPAddress option \<Rightarrow> 32 word" where
  "GetIpv4 ip = (case ip of None \<Rightarrow> 0
     | Some x \<Rightarrow> (case IPAddress_Ip x of Some (IPAddress_Ipv4 v) \<Rightarrow> v | _ \<Rightarrow> 0))"

definition GetFirst :: "IPv6 option \<Rightarrow> 64 word" where
  "GetFirst v = (case v of None \<Rightarrow> 0 | Some x \<Rightarrow> First x)"

definition GetLast :: "IPv6 option \<Rightarrow> 64 word" where
  "GetLast v = (case v of None \<Rightarrow> 0 | Some x \<Rightarrow> Last x)"

definition EndpointMeta_GetLabels :: "EndpointMeta option \<Rightarrow> go_map" where
  "EndpointMeta_GetLabels m = (case m of None \<Rightarrow> None | Some x \<Rightarrow> EndpointMeta_Labels x)"

definition RouteMeta_GetLabels :: "RouteMeta option \<Rightarrow> go_map" where
  "RouteMeta_GetLabels m = (case m of None \<Rightarrow> None | Some x \<Rightarrow> RouteMeta_Labels x)"

definition GetBase :: "StreamId option \<Rightarrow> 32 word" where
  "GetBase i = (case i of None \<Rightarrow> 0 | Some x \<Rightarrow> StreamId_Base x)"

definition GetStream :: "StreamId option \<Rightarrow> 64 word" where
  "GetStream i = (case i of None \<Rightarrow> 0 | Some x \<Rightarrow> StreamId_Stream x)"

definition GetNanos :: "Duration option \<Rightarrow> 32 word" where
  "GetNanos d = (case d of None \<Rightarrow> 0 | Some x \<Rightarrow> Nanos x)"

definition GetSeconds :: "Duration option \<Rightarrow> 64 word" where
  "GetSeconds d = (case d of None \<Rightarrow> 0 | Some x \<Rightarrow> Seconds x)"

definition GetEvent :: "TapEvent_Http option \<Rightarrow> isTapEvent_Http_Event option" where
  "GetEvent h = (case h of None \<Rightarrow> None | Some x \<Rightarrow> Http_Event x)"

definition GetRequestInit :: "TapEvent_Http option \<Rightarrow> RequestInit option" where
  "GetRequestInit h = (case GetEvent h of Some (TapEvent_Http_RequestInit_w x) \<Rightarrow> x | _ \<Rightarrow> None)"

definition GetResponseInit :: "TapEvent_Http option \<Rightarrow> ResponseInit option" where
  "GetResponseInit h = (case GetEvent h of Some (TapEvent_Http_ResponseInit_w x) \<Rightarrow> x | _ \<Rightarrow> None)"

definition GetResponseEnd :: "TapEvent_Http option \<Rightarrow> ResponseEnd option" where
  "GetResponseEnd h = (case GetEvent h of Some (TapEvent_Http_ResponseEnd_w x) \<Rightarrow> x | _ \<Rightarrow> None)"

definition RequestInit_GetId :: "RequestInit option \<Rightarrow> StreamId option" where
  "RequestInit_GetId r = (case r of None \<Rightarrow> None | Some x \<Rightarrow> RequestInit_Id x)"

definition GetMethod :: "RequestInit option \<Rightarrow> HttpMethod option" where
  "GetMethod r = (case r of None \<Rightarrow> None | Some x \<Rightarrow> RequestInit_Method x)"

definition GetScheme :: "RequestInit option \<Rightarrow> Scheme option" where
  "GetScheme r = (case r of None \<Rightarrow> None | Some x \<Rightarrow> RequestInit_Scheme x)"

definition GetAuthority :: "RequestInit option \<Rightarrow> string" where
  "GetAuthority r = (case r of None \<Rightarrow> [] | Some x \<Rightarrow> RequestInit_Authority x)"

definition GetPath :: "RequestInit option \<Rightarrow> string" where
  "GetPath r = (case r of None \<Rightarrow> [] | Some x \<Rightarrow> RequestInit_Path x)"

definition GetRegistered :: "HttpMethod option \<Rightarrow> 32 word" where
  "GetRegistered m = (case m of None \<Rightarrow> 0
     | Some x \<Rightarrow> (case HttpMethod_Type x of Some (HttpMethod_Registered_w v) \<Rightarrow> v | _ \<Rightarrow> 0))"

definition ResponseInit_GetId :: "ResponseInit option \<Rightarrow> StreamId option" where
  "ResponseInit_GetId r = (case r of None \<Rightarrow> None | Some x \<Rightarrow> ResponseInit_Id x)"

definition ResponseInit_GetSinceRequestInit :: "ResponseInit option \<Rightarrow> Duration option" where
  "ResponseInit_GetSinceRequestInit r =
     (case r of None \<Rightarrow> None | Some x \<Rightarrow> ResponseInit_SinceRequestInit x)"

definition GetHttpStatus :: "ResponseInit option \<Rightarrow> 32 word" where
  "GetHttpStatus r = (case r of None \<Rightarrow> 0 | Some x \<Rightarrow> ResponseInit_HttpStatus x)"

definition ResponseEnd_GetId :: "ResponseEnd option \<Rightarrow> StreamId option" where
  "ResponseEnd_GetId r = (case r of None \<Rightarrow> None | Some x \<Rightarrow> ResponseEnd_Id x)"

definition ResponseEnd_GetSinceRequestInit :: "ResponseEnd option \<Rightarrow> Duration option" where
  "ResponseEnd_GetSinceRequestInit r =
     (case r of None \<Rightarrow> None | Some x \<Rightarrow> ResponseEnd_SinceRequestInit x)"

definition GetSinceResponseInit :: "ResponseEnd option \<Rightarrow> Duration option" where
  "GetSinceResponseInit r =
     (case r of None \<Rightarrow> None | Some x \<Rightarrow> ResponseEnd_SinceResponseInit x)"

definition GetResponseBytes :: "ResponseEnd option \<Rightarrow> 64 word" where
  "GetResponseBytes r = (case r of None \<Rightarrow> 0 | Some x \<Rightarrow> ResponseEnd_ResponseBytes x)"

definition GetEos :: "ResponseEnd option \<Rightarrow> Eos option" where
  "GetEos r = (case r of None \<Rightarrow> None | Some x \<Rightarrow> ResponseEnd_Eos x)"

definition GetEnd :: "Eos option \<Rightarrow> isEos_End option" where
  "GetEnd e = (case e of None \<Rightarrow> None | Some x \<Rightarrow> Eos_End x)"

definition GetGrpcStatusCode :: "Eos option \<Rightarrow> 32 word" where
  "GetGrpcStatusCode e = (case GetEnd e of Some (Eos_GrpcStatusCode c) \<Rightarrow> c | _ \<Rightarrow> 0)"

definition GetResetErrorCode :: "Eos option \<Rightarrow> 32 word" where
  "GetResetErrorCode e = (case GetEnd e of Some (Eos_ResetErrorCode c) \<Rightarrow> c | _ \<Rightarrow> 0)"

subsection \<open>Enum names\<close>

text \<open>
  \<open>String()\<close> of a generated enum looks the int32 up in the enum's name table and prints
  the number in decimal when the table has no entry.
\<close>

definition EnumName :: "(32 word \<times> string) list \<Rightarrow> 32 word \<Rightarrow> string" where
  "EnumName tab v = (case map_of tab v of Some s \<Rightarrow> s | None \<Rightarrow> dec_int (sint v))"

definition TapEvent_ProxyDirection_name :: "(32 word \<times> string) list" where
  "TapEvent_ProxyDirection_name = [(0, ''UNKNOWN''), (1, ''INBOUND''), (2, ''OUTBOUND'')]"

definition HttpMethod_Registered_name :: "(32 word \<times> string) list" where
  "HttpMethod_Registered_name =
     [(0, ''GET''), (1, ''POST''), (2, ''PUT''), (3, ''DELETE''), (4, ''PATCH''),
      (5, ''OPTIONS''), (6, ''CONNECT''), (7, ''HEAD''), (8, ''TRACE'')]"

text \<open>\<open>codes.Code.String\<close> of grpc: the code's name, or \<open>Code(n)\<close> past the last one.\<close>

definition codes_Code_name :: "(32 word \<times> string) list" where
  "codes_Code_name =
     [(0, ''OK''), (1, ''Canceled''), (2, ''Unknown''), (3, ''InvalidArgument''),
      (4, ''DeadlineExceeded''), (5, ''NotFound''), (6, ''AlreadyExists''),
      (7, ''PermissionDenied''), (8, ''ResourceExhausted''), (9, ''FailedPrecondition''),
      (10, ''Aborted''), (11, ''OutOfRange''), (12, ''Unimplemented''), (13, ''Internal''),
      (14, ''Unavailable''), (15, ''DataLoss''), (16, ''Unauthenticated'')]"

definition codes_Code_String :: "32 word \<Rightarrow> string" where
  "codes_Code_String c = (case map_of codes_Code_name c of Some s \<Rightarrow> s
     | None \<Rightarrow> ''Code('' @ dec_nat (unat c) @ '')'')"

section \<open>Peer addresses\<close>

subsection \<open>\<open>net.IP.String\<close> and \<open>encoding/binary\<close>\<close>

text \<open>
  The standard library's \<open>IP.String\<close>: \<open><nil>\<close> for a slice of length 0, dotted decimal
  for a 4-byte slice and for a 16-byte slice that is an IPv4-mapped address, \<open>?\<close> and the
  bytes in hexadecimal for any other length but 16, and otherwise the eight 16-bit groups in
  lower-case hexadecimal without leading zeros, the first longest run of two or more zero
  groups replaced by \<open>::\<close>.
\<close>

type_synonym byte = "8 word"

definition PutUint32 :: "32 word \<Rightarrow> byte list" where
  "PutUint32 v = map (\<lambda>i. ucast (drop_bit (8 * i) v)) [3, 2, 1, 0]"

definition PutUint64 :: "64 word \<Rightarrow> byte list" where
  "PutUint64 v = map (\<lambda>i. ucast (drop_bit (8 * i) v)) [7, 6, 5, 4, 3, 2, 1, 0]"

definition ubtoa :: "byte \<Rightarrow> string" where
  "ubtoa b = dec_nat (unat b)"

fun intercalate :: "string \<Rightarrow> string list \<Rightarrow> string" where
  "intercalate sep [] = []"
| "intercalate sep [x] = x"
| "intercalate sep (x # y # ys) = x @ sep @ intercalate sep (y # ys)"

definition To4 :: "byte list \<Rightarrow> byte list option" where
  "To4 ip =
     (if length ip = 4 then Some ip
      else if length ip = 16 \<and> list_all (\<lambda>b. b = 0) (take 10 ip) \<and> ip ! 10 = 0xff \<and> ip ! 11 = 0xff
        then Some (drop 12 ip)
      else None)"

fun hex_nat :: "nat \<Rightarrow> string" where
  "hex_nat n = (if n < 16 then [hex_char n] else hex_nat (n div 16) @ [hex_char (n mod 16)])"

declare hex_nat.simps [simp del]

definition appendHex :: "16 word \<Rightarrow> string" where
  "appendHex g = hex_nat (unat g)"

definition hexString :: "byte list \<Rightarrow> string" where
  "hexString bs = concat (map (\<lambda>b. [hex_char (unat b div 16), hex_char (unat b mod 16)]) bs)"

fun groups16 :: "byte list \<Rightarrow> 16 word list" where
  "groups16 (hi # lo # bs) = (push_bit 8 (ucast hi) OR ucast lo) # groups16 bs"
| "groups16 bs = []"

text \<open>
  The search for the longest run of zero groups: \<open>i\<close> walks over the groups, \<open>j\<close> is
  the end of the zero run that starts at \<open>i\<close>, and a run replaces the best one so far,
  \<open>(e0, e1)\<close>, only when it is strictly longer; the walk then continues behind the run.
\<close>

definition zero_run_end :: "16 word list \<Rightarrow> nat \<Rightarrow> nat" where
  "zero_run_end gs i = i + length (takeWhile (\<lambda>g. g = 0) (drop i gs))"

function longest_zero_run :: "16 word list \<Rightarrow> nat \<Rightarrow> int \<times> int \<Rightarrow> int \<times> int" where
  "longest_zero_run gs i (e0, e1) =
     (if i < length gs then
        (let j = zero_run_end gs i in
         if j > i \<and> int j - int i > e1 - e0 then longest_zero_run gs (j + 1) (int i, int j)
         else longest_zero_run gs (i + 1) (e0, e1))
      else (e0, e1))"
  by pat_completeness auto
termination
  by (relation "measure (\<lambda>(gs, i, e). length gs - i)") (auto simp: zero_run_end_def)

declare longest_zero_run.simps [simp del]

definition ipv6_text :: "16 word list \<Rightarrow> string" where
  "ipv6_text gs =
     (let (e0, e1) = longest_zero_run gs 0 (- 1, - 1) in
      if e1 - e0 \<le> 1 then intercalate '':'' (map appendHex gs)
      else intercalate '':'' (map appendHex (take (nat e0) gs)) @ ''::''
           @ intercalate '':'' (map appendHex (drop (nat e1) gs)))"

definition IP_String :: "byte list \<Rightarrow> string" where
  "IP_String ip =
     (if length ip = 0 then ''<nil>''
      else case To4 ip of
        Some p4 \<Rightarrow> intercalate ''.'' (map ubtoa p4)
      | None \<Rightarrow> if length ip \<noteq> 16 then ''?'' @ hexString ip else ipv6_text (groups16 ip))"

subsection \<open>getIPAddress\<close>

definition getIPAddress :: "IPAddress option \<Rightarrow> string" where
  "getIPAddress ip =
     (let b = (if GetIpv6 ip \<noteq> None
               then PutUint64 (GetFirst (GetIpv6 ip)) @ PutUint64 (GetLast (GetIpv6 ip))
               else if GetIpv4 ip \<noteq> 0 then PutUint32 (GetIpv4 ip)
               else [])
      in IP_String b)"

section \<open>The display event and its mapper\<close>

record endpoint =
  endpoint_IP :: string
  endpoint_Port :: "32 word"
  endpoint_Metadata :: go_map

record streamID =
  streamID_Base :: "32 word"
  streamID_Stream :: "64 word"

record requestInitEvent =
  requestInitEvent_ID :: "streamID option"
  requestInitEvent_Method :: "HttpMethod option"
  requestInitEvent_Scheme :: "Scheme option"
  requestInitEvent_Authority :: string
  requestInitEvent_Path :: string

record responseInitEvent =
  responseInitEvent_ID :: "streamID option"
  responseInitEvent_SinceRequestInit :: "Duration option"
  responseInitEvent_HTTPStatus :: "32 word"

record responseEndEvent =
  responseEndEvent_ID :: "streamID option"
  responseEndEvent_SinceRequestInit :: "Duration option"
  responseEndEvent_SinceResponseInit :: "Duration option"
  responseEndEvent_ResponseBytes :: "64 word"
  responseEndEvent_GrpcStatusCode :: "32 word"
  responseEndEvent_ResetErrorCode :: "32 word"

record tapEvent =
  tapEvent_Source :: "endpoint option"
  tapEvent_Destination :: "endpoint option"
  tapEvent_RouteMeta :: go_map
  tapEvent_ProxyDirection :: string
  RequestInitEvent :: "requestInitEvent option"
  ResponseInitEvent :: "responseInitEvent option"
  ResponseEndEvent :: "responseEndEvent option"

definition getRequestInitEvent :: "TapEvent_Http option \<Rightarrow> requestInitEvent option" where
  "getRequestInitEvent pubEv =
     (let reqI = GetRequestInit pubEv in
      if reqI \<noteq> None then
        (let sid = Some \<lparr>streamID_Base = GetBase (RequestInit_GetId reqI),
                            streamID_Stream = GetStream (RequestInit_GetId reqI)\<rparr>
         in Some \<lparr>requestInitEvent_ID = sid,
                   requestInitEvent_Method = GetMethod reqI,
                   requestInitEvent_Scheme = GetScheme reqI,
                   requestInitEvent_Authority = GetAuthority reqI,
                   requestInitEvent_Path = GetPath reqI\<rparr>)
      else None)"

definition getResponseInitEvent :: "TapEvent_Http option \<Rightarrow> responseInitEvent option" where
  "getResponseInitEvent pubEv =
     (let resI = GetResponseInit pubEv in
      if resI \<noteq> None then
        (let sid = Some \<lparr>streamID_Base = GetBase (ResponseInit_GetId resI),
                            streamID_Stream = GetStream (ResponseInit_GetId resI)\<rparr>
         in Some \<lparr>responseInitEvent_ID = sid,
                   responseInitEvent_SinceRequestInit = ResponseInit_GetSinceRequestInit resI,
                   responseInitEvent_HTTPStatus = GetHttpStatus resI\<rparr>)
      else None)"

definition getResponseEndEvent :: "TapEvent_Http option \<Rightarrow> responseEndEvent option" where
  "getResponseEndEvent pubEv =
     (let resE = GetResponseEnd pubEv in
      if resE \<noteq> None then
        (let sid = Some \<lparr>streamID_Base = GetBase (ResponseEnd_GetId resE),
                            streamID_Stream = GetStream (ResponseEnd_GetId resE)\<rparr>
         in Some \<lparr>responseEndEvent_ID = sid,
                   responseEndEvent_SinceRequestInit = ResponseEnd_GetSinceRequestInit resE,
                   responseEndEvent_SinceResponseInit = GetSinceResponseInit resE,
                   responseEndEvent_ResponseBytes = GetResponseBytes resE,
                   responseEndEvent_GrpcStatusCode = GetGrpcStatusCode (GetEos resE),
                   responseEndEvent_ResetErrorCode = GetResetErrorCode (GetEos resE)\<rparr>)
      else None)"

definition mapPublicToDisplayTapEvent :: "TapEvent \<Rightarrow> tapEvent" where
  "mapPublicToDisplayTapEvent event =
     (let sip = getIPAddress (GetIp (Source event));
          sp = GetPort (Source event);
          s = Some \<lparr>endpoint_IP = sip, endpoint_Port = sp,
                        endpoint_Metadata = EndpointMeta_GetLabels (SourceMeta event)\<rparr>;
          dip = getIPAddress (GetIp (Destination event));
          dp = GetPort (Destination event);
          d = Some \<lparr>endpoint_IP = dip, endpoint_Port = dp,
                        endpoint_Metadata = EndpointMeta_GetLabels (DestinationMeta event)\<rparr>;
          rm = RouteMeta_GetLabels (TapEvent_RouteMeta event);
          pdir = EnumName TapEvent_ProxyDirection_name (TapEvent_ProxyDirection event)
      in \<lparr>tapEvent_Source = s,
          tapEvent_Destination = d,
          tapEvent_RouteMeta = rm,
          tapEvent_ProxyDirection = pdir,
          RequestInitEvent = getRequestInitEvent (Http event),
          ResponseInitEvent = getResponseInitEvent (Http event),
          ResponseEndEvent = getResponseEndEvent (Http event)\<rparr>)"

section \<open>The JSON renderer\<close>

text \<open>
  \<open>json.MarshalIndent\<close> is modelled up to the layout of the text: the result is the
  document as a tree, objects with their keys in the order the encoder emits them (struct
  fields in declaration order, map keys sorted). A field tagged \<open>omitempty\<close> is left
  out when it is a nil pointer or a zero number; a nil pointer or nil map that is not left
  out is \<open>null\<close>. \<open>JString\<close> holds the Go string that is handed to the encoder.
  No value of these types makes the encoder fail, so the error branch of
  \<open>renderTapEventJSON\<close> is never taken.
\<close>

datatype json = JNull | JNumber int | JString string | JObject "(string \<times> json) list"

definition marshal_map :: "go_map \<Rightarrow> json" where
  "marshal_map m = (case m of None \<Rightarrow> JNull
     | Some kvs \<Rightarrow> JObject (map (\<lambda>(k, v). (k, JString v)) (sort_key fst kvs)))"

definition marshal_endpoint :: "endpoint option \<Rightarrow> json" where
  "marshal_endpoint p = (case p of None \<Rightarrow> JNull
     | Some e \<Rightarrow> JObject [(''ip'', JString (endpoint_IP e)),
                          (''port'', JNumber (uint (endpoint_Port e))),
                          (''metadata'', marshal_map (endpoint_Metadata e))])"

definition marshal_streamID :: "streamID option \<Rightarrow> json" where
  "marshal_streamID p = (case p of None \<Rightarrow> JNull
     | Some i \<Rightarrow> JObject [(''base'', JNumber (uint (streamID_Base i))),
                          (''stream'', JNumber (uint (streamID_Stream i)))])"

text \<open>
  The generated structs \<open>HttpMethod\<close> and \<open>Scheme\<close> have one exported field without a
  json tag, the oneof \<open>Type\<close>, whose wrapper has the one field \<open>Registered\<close> (an int32
  enum) or \<open>Unregistered\<close>; \<open>Duration\<close> has the fields \<open>seconds\<close> and \<open>nanos\<close>,
  both \<open>omitempty\<close>.
\<close>

definition marshal_HttpMethod :: "HttpMethod option \<Rightarrow> json" where
  "marshal_HttpMethod p = (case p of None \<Rightarrow> JNull
     | Some m \<Rightarrow> JObject [(''Type'', (case HttpMethod_Type m of None \<Rightarrow> JNull
          | Some (HttpMethod_Registered_w v) \<Rightarrow> JObject [(''Registered'', JNumber (sint v))]
          | Some (HttpMethod_Unregistered u) \<Rightarrow> JObject [(''Unregistered'', JString u)]))])"

definition marshal_Scheme :: "Scheme option \<Rightarrow> json" where
  "marshal_Scheme p = (case p of None \<Rightarrow> JNull
     | Some m \<Rightarrow> JObject [(''Type'', (case Scheme_Type m of None \<Rightarrow> JNull
          | Some (Scheme_Registered_w v) \<Rightarrow> JObject [(''Registered'', JNumber (sint v))]
          | Some (Scheme_Unregistered u) \<Rightarrow> JObject [(''Unregistered'', JString u)]))])"

definition marshal_Duration :: "Duration option \<Rightarrow> json" where
  "marshal_Duration p = (case p of None \<Rightarrow> JNull
     | Some d \<Rightarrow> JObject
         ((if Seconds d = 0 then [] else [(''seconds'', JNumber (sint (Seconds d)))])
          @ (if Nanos d = 0 then [] else [(''nanos'', JNumber (sint (Nanos d)))])))"

definition marshal_requestInitEvent :: "requestInitEvent \<Rightarrow> json" where
  "marshal_requestInitEvent r =
     JObject [(''id'', marshal_streamID (requestInitEvent_ID r)),
              (''method'', marshal_HttpMethod (requestInitEvent_Method r)),
              (''scheme'', marshal_Scheme (requestInitEvent_Scheme r)),
              (''authority'', JString (requestInitEvent_Authority r)),
              (''path'', JString (requestInitEvent_Path r))]"

definition marshal_responseInitEvent :: "responseInitEvent \<Rightarrow> json" where
  "marshal_responseInitEvent r =
     JObject [(''id'', marshal_streamID (responseInitEvent_ID r)),
              (''sinceRequestInit'', marshal_Duration (responseInitEvent_SinceRequestInit r)),
              (''httpStatus'', JNumber (uint (responseInitEvent_HTTPStatus r)))]"

definition marshal_responseEndEvent :: "responseEndEvent \<Rightarrow> json" where
  "marshal_responseEndEvent r =
     JObject ([(''id'', marshal_streamID (responseEndEvent_ID r)),
               (''sinceRequestInit'', marshal_Duration (responseEndEvent_SinceRequestInit r)),
               (''sinceResponseInit'', marshal_Duration (responseEndEvent_SinceResponseInit r)),
               (''responseBytes'', JNumber (uint (responseEndEvent_ResponseBytes r)))]
              @ (if responseEndEvent_GrpcStatusCode r = 0 then []
                 else [(''grpcStatusCode'', JNumber (uint (responseEndEvent_GrpcStatusCode r)))])
              @ (if responseEndEvent_ResetErrorCode r = 0 then []
                 else [(''resetErrorCode'', JNumber (uint (responseEndEvent_ResetErrorCode r)))]))"

definition marshal_tapEvent :: "tapEvent \<Rightarrow> json" where
  "marshal_tapEvent m =
     JObject ([(''source'', marshal_endpoint (tapEvent_Source m)),
               (''destination'', marshal_endpoint (tapEvent_Destination m)),
               (''routeMeta'', marshal_map (tapEvent_RouteMeta m)),
               (''proxyDirection'', JString (tapEvent_ProxyDirection m))]
              @ (case RequestInitEvent m of None \<Rightarrow> []
                 | Some r \<Rightarrow> [(''requestInitEvent'', marshal_requestInitEvent r)])
              @ (case ResponseInitEvent m of None \<Rightarrow> []
                 | Some r \<Rightarrow> [(''responseInitEvent'', marshal_responseInitEvent r)])
              @ (case ResponseEndEvent m of None \<Rightarrow> []
                 | Some r \<Rightarrow> [(''responseEndEvent'', marshal_responseEndEvent r)]))"

definition renderTapEventJSON :: "TapEvent \<Rightarrow> string \<Rightarrow> json" where
  "renderTapEventJSON event unused = marshal_tapEvent (mapPublicToDisplayTapEvent event)"

fun object_fields :: "json \<Rightarrow> (string \<times> json) list" where
  "object_fields (JObject kvs) = kvs"
| "object_fields j = []"

definition object_keys :: "json \<Rightarrow> string list" where
  "object_keys j = map fst (object_fields j)"

section \<open>The line renderer\<close>

text \<open>
  Modelled from the spec: the label keys \<open>k8s.Pod\<close> and \<open>k8s.Namespace\<close> of package
  pkg/k8s, which is not among the sources. The spec names the namespace kind
  \<open>namespace\<close> and speaks of the pod label.
\<close>

definition k8s_Pod :: string where
  "k8s_Pod = ''pod''"

definition k8s_Namespace :: string where
  "k8s_Namespace = ''namespace''"

text \<open>
  Two helpers of the repository are not among the sources and are parameters of the
  renderer: \<open>addr.PublicAddressToString\<close> (the text of a peer's TCP address) and
  \<open>k8s.ShortNameFromCanonicalResourceName\<close> (the short form of a resource kind, the empty
  string when there is none).
\<close>

type_synonym addr_to_string = "TcpAddress option \<Rightarrow> string"
type_synonym short_name = "string \<Rightarrow> string"

record peer =
  address :: "TcpAddress option"
  labels :: go_map
  direction :: string

definition src :: "TapEvent \<Rightarrow> peer" where
  "src event = \<lparr>address = Source event,
                 labels = EndpointMeta_GetLabels (SourceMeta event),
                 direction = ''src''\<rparr>"

definition dst :: "TapEvent \<Rightarrow> peer" where
  "dst event = \<lparr>address = Destination event,
                 labels = EndpointMeta_GetLabels (DestinationMeta event),
                 direction = ''dst''\<rparr>"

definition formatAddr :: "addr_to_string \<Rightarrow> peer \<Rightarrow> string" where
  "formatAddr addrString p = direction p @ ''='' @ addrString (address p)"

definition formatResource :: "short_name \<Rightarrow> peer \<Rightarrow> string \<Rightarrow> string" where
  "formatResource ShortNameFromCanonicalResourceName p resourceKind =
     (let s = (case map_index (labels p) resourceKind of
                 Some resourceName \<Rightarrow>
                   (let short = ShortNameFromCanonicalResourceName resourceKind;
                        kind = (if short \<noteq> [] then short else resourceKind)
                    in '' '' @ direction p @ ''_res='' @ kind @ ''/'' @ resourceName)
               | None \<Rightarrow>
                   (case map_index (labels p) k8s_Pod of
                      Some pod \<Rightarrow> '' '' @ direction p @ ''_pod='' @ pod
                    | None \<Rightarrow> []))
      in if resourceKind \<noteq> k8s_Namespace then
           (case map_index (labels p) k8s_Namespace of
              Some ns \<Rightarrow> s @ '' '' @ direction p @ ''_ns='' @ ns
            | None \<Rightarrow> s)
         else s)"

definition tlsStatus :: "peer \<Rightarrow> string" where
  "tlsStatus p = (case map_index (labels p) ''tls'' of Some v \<Rightarrow> v | None \<Rightarrow> [])"

definition routeLabels :: "TapEvent \<Rightarrow> string" where
  "routeLabels event =
     fold (\<lambda>(key, val) out. out @ '' rt_'' @ key @ ''='' @ val)
       (map_range (RouteMeta_GetLabels (TapEvent_RouteMeta event))) []"

text \<open>The flow segment and the resource suffix, the two local strings of \<open>renderTapEvent\<close>.\<close>

definition flow :: "addr_to_string \<Rightarrow> TapEvent \<Rightarrow> string" where
  "flow addrString event =
     (let (proxy, tls) =
            (if TapEvent_ProxyDirection event = TapEvent_INBOUND
               then (''in '', tlsStatus (src event))
             else if TapEvent_ProxyDirection event = TapEvent_OUTBOUND
               then (''out'', tlsStatus (dst event))
             else (''???'', []))
      in ''proxy='' @ proxy @ '' '' @ formatAddr addrString (src event)
         @ '' '' @ formatAddr addrString (dst event) @ '' tls='' @ tls)"

definition resources :: "short_name \<Rightarrow> TapEvent \<Rightarrow> string \<Rightarrow> string" where
  "resources ShortName event resource =
     (if resource \<noteq> [] then
        formatResource ShortName (src event) resource
        @ formatResource ShortName (dst event) resource
        @ routeLabels event
      else [])"

text \<open>
  The division of the int32 nanoseconds by 1000 truncates towards zero (\<open>sdiv\<close> on the
  signed value; the quotient is again an int32), and \<open>%d\<close> prints the signed result.
\<close>

definition micros :: "Duration option \<Rightarrow> string" where
  "micros d = dec_int (sint (GetNanos d) sdiv 1000)"

definition idText :: "StreamId option \<Rightarrow> string" where
  "idText i = ''id='' @ dec_nat (unat (GetBase i)) @ '':'' @ dec_nat (unat (GetStream i))"

definition renderTapEvent ::
    "addr_to_string \<Rightarrow> short_name \<Rightarrow> TapEvent \<Rightarrow> string \<Rightarrow> string" where
  "renderTapEvent addrString ShortName event resource =
     (let flow = flow addrString event;
          resources = resources ShortName event resource
      in case GetEvent (Http event) of
        Some (TapEvent_Http_RequestInit_w ri) \<Rightarrow>
          ''req '' @ idText (RequestInit_GetId ri) @ '' '' @ flow
          @ '' :method='' @ EnumName HttpMethod_Registered_name (GetRegistered (GetMethod ri))
          @ '' :authority='' @ GetAuthority ri
          @ '' :path='' @ GetPath ri @ resources
      | Some (TapEvent_Http_ResponseInit_w rsi) \<Rightarrow>
          ''rsp '' @ idText (ResponseInit_GetId rsi) @ '' '' @ flow
          @ '' :status='' @ dec_nat (unat (GetHttpStatus rsi))
          @ '' latency='' @ micros (ResponseInit_GetSinceRequestInit rsi) @ micro @ ''s''
          @ resources
      | Some (TapEvent_Http_ResponseEnd_w re) \<Rightarrow>
          (case GetEnd (GetEos re) of
             Some (Eos_GrpcStatusCode c) \<Rightarrow>
               ''end '' @ idText (ResponseEnd_GetId re) @ '' '' @ flow
               @ '' grpc-status='' @ codes_Code_String c
               @ '' duration='' @ micros (GetSinceResponseInit re) @ micro @ ''s''
               @ '' response-length='' @ dec_nat (unat (GetResponseBytes re)) @ ''B''
               @ resources
           | Some (Eos_ResetErrorCode c) \<Rightarrow>
               ''end '' @ idText (ResponseEnd_GetId re) @ '' '' @ flow
               @ '' reset-error='' @ dec_nat (unat c)
               @ '' duration='' @ micros (GetSinceResponseInit re) @ micro @ ''s''
               @ '' response-length='' @ dec_nat (unat (GetResponseBytes re)) @ ''B''
               @ resources
           | None \<Rightarrow>
               ''end '' @ idText (ResponseEnd_GetId re) @ '' '' @ flow
               @ '' duration='' @ micros (GetSinceResponseInit re) @ micro @ ''s''
               @ '' response-length='' @ dec_nat (unat (GetResponseBytes re)) @ ''B''
               @ resources)
      | None \<Rightarrow> ''unknown '' @ flow)"

text \<open>
  Modelled from the spec: \<open>addr.PublicAddressToString\<close> of package pkg/addr, which is not
  among the sources. Following the spec's example \<open>src=10.0.0.1:80\<close> it is the address
  text of the Address Codec, a colon and the port in decimal.
\<close>

definition PublicAddressToString :: addr_to_string where
  "PublicAddressToString a = getIPAddress (GetIp a) @ '':'' @ dec_nat (unat (GetPort a))"

section \<open>The stream consumer loop\<close>

text \<open>
  Modelled from the spec: the decoder \<open>protohttp.FromByteStreamToProtocolBuffers\<close> of
  package pkg/protohttp, which is not among the sources. The byte stream is the sequence
  of results of its successive calls, each a decoded event or an error (the end-of-input
  signal \<open>io.EOF\<close> or a decode failure); the sequence has no end, since the loop may be
  handed a stream that never signals anything.

  The tabwriter is modelled by the lines it has taken but not yet written (\<open>held\<close>), the
  lines written to the underlying writer (\<open>out\<close>), and the number of lines it will still
  take before \<open>Fprintln\<close> returns an error (\<open>room\<close>); \<open>Flush\<close> writes what is
  held. What is written to standard error is the list \<open>stderr\<close>. A rendered record is a
  line of text or a JSON document.
\<close>

datatype go_error = io_EOF | other_error string

type_synonym read_result = "go_error + TapEvent"

datatype rendered = Text string | Document json

record tabwriter =
  held :: "rendered list"
  out :: "rendered list"
  room :: nat

definition NewWriter :: "rendered list \<Rightarrow> nat \<Rightarrow> tabwriter" where
  "NewWriter written n = \<lparr>held = [], out = written, room = n\<rparr>"

definition Fprintln :: "tabwriter \<Rightarrow> rendered \<Rightarrow> go_error option \<times> tabwriter" where
  "Fprintln w line =
     (if room w = 0 then (Some (other_error ''write''), w)
      else (None, w\<lparr>held := held w @ [line], room := room w - 1\<rparr>))"

definition Flush :: "tabwriter \<Rightarrow> tabwriter" where
  "Flush w = w\<lparr>held := [], out := out w @ held w\<rparr>"

type_synonym renderTapEventFunc = "TapEvent \<Rightarrow> string \<Rightarrow> rendered"

type_synonym loop_result = "go_error option \<times> tabwriter \<times> go_error list"

partial_function (option) renderTapEvents ::
    "read_result stream \<Rightarrow> tabwriter \<Rightarrow> go_error list \<Rightarrow> renderTapEventFunc \<Rightarrow> string
      \<Rightarrow> loop_result option" where
  "renderTapEvents tapByteStream w stderr render resource =
     (case shd tapByteStream of
        Inl err \<Rightarrow>
          if err = io_EOF then Some (None, w, stderr)
          else Some (None, w, stderr @ [err])
      | Inr event \<Rightarrow>
          (case Fprintln w (render event resource) of
             (Some err, w') \<Rightarrow> Some (Some err, w', stderr)
           | (None, w') \<Rightarrow> renderTapEvents (stl tapByteStream) w' stderr render resource))"

text \<open>
  Modelled from the spec: the names of the output formats, \<open>wideOutput\<close> and
  \<open>jsonOutput\<close>, constants of package cmd declared outside tap.go. Of the request only
  the type of the target resource is read; of the options only the output format.
\<close>

definition wideOutput :: string where
  "wideOutput = ''wide''"

definition jsonOutput :: string where
  "jsonOutput = ''json''"

record Resource =
  Resource_Type :: string

record ResourceSelection =
  ResourceSelection_Resource :: "Resource option"

record TapByResourceRequest =
  Target :: "ResourceSelection option"

definition GetType :: "TapByResourceRequest \<Rightarrow> string" where
  "GetType req = (case Target req of None \<Rightarrow> []
     | Some t \<Rightarrow> (case ResourceSelection_Resource t of None \<Rightarrow> [] | Some r \<Rightarrow> Resource_Type r))"

record tapOptions =
  tapOptions_output :: string

definition validate :: "tapOptions \<Rightarrow> go_error option" where
  "validate options =
     (if tapOptions_output options = [] \<or> tapOptions_output options = wideOutput
         \<or> tapOptions_output options = jsonOutput
      then None
      else Some (other_error (''output format \"'' @ tapOptions_output options @ ''\" not recognized'')))"

definition writeTapEventsToBuffer ::
    "addr_to_string \<Rightarrow> short_name \<Rightarrow> rendered list \<Rightarrow> nat \<Rightarrow> read_result stream
      \<Rightarrow> go_error list \<Rightarrow> TapByResourceRequest \<Rightarrow> tapOptions \<Rightarrow> loop_result option" where
  "writeTapEventsToBuffer addrString ShortName written n tapByteStream stderr req options =
     (let writer = NewWriter written n;
          line = (\<lambda>event resource. Text (renderTapEvent addrString ShortName event resource));
          doc = (\<lambda>event resource. Document (renderTapEventJSON event resource))
      in case (if tapOptions_output options = [] then renderTapEvents tapByteStream writer stderr line []
               else if tapOptions_output options = wideOutput
                 then renderTapEvents tapByteStream writer stderr line (GetType req)
               else if tapOptions_output options = jsonOutput
                 then renderTapEvents tapByteStream writer stderr doc []
               else Some (None, writer, stderr)) of
           None \<Rightarrow> None
         | Some (Some err, writer', stderr') \<Rightarrow> Some (Some err, writer', stderr')
         | Some (None, writer', stderr') \<Rightarrow> Some (None, Flush writer', stderr'))"

section \<open>The specification's reading of the rendered line\<close>

text \<open>
  The status clause of a response-end line as the specification words it: the name of the
  gRPC status, the reset error code, or nothing at all.
\<close>

definition spec_status_clause :: "isEos_End option \<Rightarrow> string" where
  "spec_status_clause outcome =
     (case outcome of
        Some (Eos_GrpcStatusCode c) \<Rightarrow> '' grpc-status='' @ codes_Code_String c
      | Some (Eos_ResetErrorCode c) \<Rightarrow> '' reset-error='' @ dec_nat (unat c)
      | None \<Rightarrow> [])"

text \<open>
  The annotation of one peer in wide mode as the specification words it: the resource of
  the requested kind when the labels have it (under the kind's short name when there is
  one), else the pod when the labels have one; then the namespace when the labels have one,
  unless the requested kind is the namespace itself.
\<close>

definition spec_res_annotation :: "short_name \<Rightarrow> string \<Rightarrow> go_map \<Rightarrow> string \<Rightarrow> string" where
  "spec_res_annotation short dir lbls kind =
     (case map_index lbls kind of
        Some name \<Rightarrow> '' '' @ dir @ ''_res='' @ (if short kind = [] then kind else short kind)
                       @ ''/'' @ name
      | None \<Rightarrow> (case map_index lbls ''pod'' of
                   Some pod \<Rightarrow> '' '' @ dir @ ''_pod='' @ pod
                 | None \<Rightarrow> []))"

definition spec_ns_annotation :: "string \<Rightarrow> go_map \<Rightarrow> string \<Rightarrow> string" where
  "spec_ns_annotation dir lbls kind =
     (if kind = ''namespace'' then []
      else case map_index lbls ''namespace'' of
             Some ns \<Rightarrow> '' '' @ dir @ ''_ns='' @ ns
           | None \<Rightarrow> [])"

text \<open>The renderer that \<open>writeTapEventsToBuffer\<close> selects for a valid output format.\<close>

definition selected_line ::
    "addr_to_string \<Rightarrow> short_name \<Rightarrow> TapByResourceRequest \<Rightarrow> tapOptions \<Rightarrow> TapEvent \<Rightarrow> rendered" where
  "selected_line addrString ShortName req options event =
     (if tapOptions_output options = [] then Text (renderTapEvent addrString ShortName event [])
      else if tapOptions_output options = wideOutput
        then Text (renderTapEvent addrString ShortName event (GetType req))
      else Document (renderTapEventJSON event []))"

section \<open>Example events\<close>

definition example_source :: TcpAddress where
  "example_source =
     \<lparr>TcpAddress_Ip = Some \<lparr>IPAddress_Ip = Some (IPAddress_Ipv4 0x0A000001)\<rparr>,
      TcpAddress_Port = 80\<rparr>"

definition example_destination :: TcpAddress where
  "example_destination =
     \<lparr>TcpAddress_Ip = Some \<lparr>IPAddress_Ip = Some (IPAddress_Ipv4 0x0A000002)\<rparr>,
      TcpAddress_Port = 8080\<rparr>"

definition example_id :: StreamId where
  "example_id = \<lparr>StreamId_Base = 1, StreamId_Stream = 2\<rparr>"

definition example_event :: "isTapEvent_Http_Event \<Rightarrow> TapEvent" where
  "example_event payload =
     \<lparr>Source = Some example_source, SourceMeta = None,
      Destination = Some example_destination, DestinationMeta = None,
      TapEvent_RouteMeta = None, TapEvent_ProxyDirection = TapEvent_INBOUND,
      Http = Some \<lparr>Http_Event = Some payload\<rparr>\<rparr>"

definition example_request_init :: RequestInit where
  "example_request_init =
     \<lparr>RequestInit_Id = Some example_id,
      RequestInit_Method = Some \<lparr>HttpMethod_Type = Some (HttpMethod_Registered_w 0)\<rparr>,
      RequestInit_Scheme = None,
      RequestInit_Authority = ''example.com'',
      RequestInit_Path = ''/x''\<rparr>"

definition example_response_init :: ResponseInit where
  "example_response_init =
     \<lparr>ResponseInit_Id = Some example_id,
      ResponseInit_SinceRequestInit = Some \<lparr>Seconds = 2, Nanos = 500000\<rparr>,
      ResponseInit_HttpStatus = 200\<rparr>"

definition example_response_end :: "Eos option \<Rightarrow> ResponseEnd" where
  "example_response_end eos =
     \<lparr>ResponseEnd_Id = Some example_id,
      ResponseEnd_SinceRequestInit = Some \<lparr>Seconds = 0, Nanos = 7000\<rparr>,
      ResponseEnd_SinceResponseInit = Some \<lparr>Seconds = 0, Nanos = 3000\<rparr>,
      ResponseEnd_ResponseBytes = 42,
      ResponseEnd_Eos = eos\<rparr>"

definition example_wide_event :: TapEvent where
  "example_wide_event =
     \<lparr>Source = Some example_source,
      SourceMeta = Some \<lparr>EndpointMeta_Labels =
        Some [(''deployment'', ''web''), (''namespace'', ''prod''), (''pod'', ''web-1'')]\<rparr>,
      Destination = Some example_destination,
      DestinationMeta = Some \<lparr>EndpointMeta_Labels = Some [(''pod'', ''db-0'')]\<rparr>,
      TapEvent_RouteMeta = Some \<lparr>RouteMeta_Labels = Some [(''route'', ''r1'')]\<rparr>,
      TapEvent_ProxyDirection = TapEvent_OUTBOUND,
      Http = Some \<lparr>Http_Event = Some (TapEvent_Http_RequestInit_w (Some example_request_init))\<rparr>\<rparr>"

definition example_short_name :: short_name where
  "example_short_name kind = (if kind = ''deployment'' then ''deploy'' else [])"

section \<open>Parsing an address text back\<close>

text \<open>
  The round-trip property of the Address Codec is stated against the standard library's
  own parser, \<open>net.ParseIP\<close>, which is the inverse that the specification's ``standard
  parsing'' refers to for a Go program. It is not part of the repository; the definitions
  follow the library: \<open>dtoi\<close> and \<open>xtoi\<close> read a decimal and a hexadecimal number
  and return the value, the number of characters consumed and a success flag;
  \<open>parseIPv4\<close> reads four decimal octets separated by dots; \<open>parseIPv6\<close> reads up to
  eight hexadecimal groups separated by colons, at most one \<open>::\<close> and possibly a trailing
  dotted IPv4 part, and expands the \<open>::\<close> to the missing zero groups. The result is
  always the 16-byte form (\<open>None\<close> is the nil result of a failed parse); the bytes parsed
  so far are the list \<open>acc\<close>, the library's \<open>ip[0:i]\<close>.
\<close>

definition big :: nat where
  "big = 0xFFFFFF"

definition is_digit :: "char \<Rightarrow> bool" where
  "is_digit c = (CHR ''0'' \<le> c \<and> c \<le> CHR ''9'')"

definition is_lower_hex :: "char \<Rightarrow> bool" where
  "is_lower_hex c = (CHR ''a'' \<le> c \<and> c \<le> CHR ''f'')"

definition is_upper_hex :: "char \<Rightarrow> bool" where
  "is_upper_hex c = (CHR ''A'' \<le> c \<and> c \<le> CHR ''F'')"

definition char_diff :: "char \<Rightarrow> char \<Rightarrow> nat" where
  "char_diff c base = of_char c - of_char base"

fun dtoi_loop :: "nat \<Rightarrow> nat \<Rightarrow> string \<Rightarrow> nat \<times> nat \<times> bool" where
  "dtoi_loop n i [] = (n, i, True)"
| "dtoi_loop n i (c # cs) =
     (if is_digit c then
        (let n' = n * 10 + char_diff c CHR ''0'' in
         if n' \<ge> big then (big, i, False) else dtoi_loop n' (i + 1) cs)
      else (n, i, True))"

definition dtoi :: "string \<Rightarrow> nat \<times> nat \<times> bool" where
  "dtoi s = (case dtoi_loop 0 0 s of
       (n, i, False) \<Rightarrow> (n, i, False)
     | (n, i, True) \<Rightarrow> if i = 0 then (0, 0, False) else (n, i, True))"

fun xtoi_loop :: "nat \<Rightarrow> nat \<Rightarrow> string \<Rightarrow> nat \<times> nat \<times> bool" where
  "xtoi_loop n i [] = (n, i, True)"
| "xtoi_loop n i (c # cs) =
     (if is_digit c \<or> is_lower_hex c \<or> is_upper_hex c then
        (let n' = (if is_digit c then n * 16 + char_diff c CHR ''0''
                   else if is_lower_hex c then n * 16 + (char_diff c CHR ''a'' + 10)
                   else n * 16 + (char_diff c CHR ''A'' + 10)) in
         if n' \<ge> big then (0, i, False) else xtoi_loop n' (i + 1) cs)
      else (n, i, True))"

definition xtoi :: "string \<Rightarrow> nat \<times> nat \<times> bool" where
  "xtoi s = (case xtoi_loop 0 0 s of
       (n, i, False) \<Rightarrow> (n, i, False)
     | (n, i, True) \<Rightarrow> if i = 0 then (0, i, False) else (n, i, True))"

definition v4InV6Prefix :: "byte list" where
  "v4InV6Prefix = [0, 0, 0, 0, 0, 0, 0, 0, 0, 0, 0xff, 0xff]"

definition IPv4 :: "byte list \<Rightarrow> byte list" where
  "IPv4 p = v4InV6Prefix @ p"

fun parseIPv4_loop :: "nat \<Rightarrow> bool \<Rightarrow> string \<Rightarrow> byte list \<Rightarrow> byte list option" where
  "parseIPv4_loop 0 first s p = (if s \<noteq> [] then None else Some (IPv4 p))"
| "parseIPv4_loop (Suc k) first s p =
     (if s = [] then None
      else if \<not> first \<and> hd s \<noteq> CHR ''.'' then None
      else (let s1 = (if first then s else tl s) in
            case dtoi s1 of (n, c, ok) \<Rightarrow>
              if \<not> ok \<or> n > 0xFF then None
              else parseIPv4_loop k False (drop c s1) (p @ [of_nat n])))"

definition parseIPv4 :: "string \<Rightarrow> byte list option" where
  "parseIPv4 s = parseIPv4_loop 4 True s []"

function parseIPv6_loop ::
    "string \<Rightarrow> byte list \<Rightarrow> nat option \<Rightarrow> (string \<times> byte list \<times> nat option) option" where
  "parseIPv6_loop s acc ellipsis =
     (if length acc < 16 then
        (case xtoi s of (n, c, ok) \<Rightarrow>
           if \<not> ok \<or> n > 0xFFFF then None
           else if c < length s \<and> s ! c = CHR ''.'' then
             (if ellipsis = None \<and> length acc \<noteq> 12 then None
              else if length acc + 4 > 16 then None
              else (case parseIPv4 s of
                      None \<Rightarrow> None
                    | Some ip4 \<Rightarrow> Some ([], acc @ drop 12 ip4, ellipsis)))
           else
             (let acc' = acc @ [of_nat (n div 256), of_nat n];
                  s' = drop c s in
              if s' = [] then Some (s', acc', ellipsis)
              else if hd s' \<noteq> CHR '':'' \<or> length s' = 1 then None
              else if hd (tl s') = CHR '':'' then
                (if ellipsis \<noteq> None then None
                 else if tl (tl s') = [] then Some ([], acc', Some (length acc'))
                 else parseIPv6_loop (tl (tl s')) acc' (Some (length acc')))
              else parseIPv6_loop (tl s') acc' ellipsis))
      else Some (s, acc, ellipsis))"
  by pat_completeness auto
termination
  by (relation "measure (\<lambda>(s, acc, e). 16 - length acc)") auto

declare parseIPv6_loop.simps [simp del]

definition parseIPv6 :: "string \<Rightarrow> byte list option" where
  "parseIPv6 s =
     (let leading = (length s \<ge> 2 \<and> s ! 0 = CHR '':'' \<and> s ! 1 = CHR '':'');
          s0 = (if leading then drop 2 s else s);
          ellipsis = (if leading then Some 0 else None)
      in if leading \<and> s0 = [] then Some (replicate 16 0)
         else (case parseIPv6_loop s0 [] ellipsis of
                 None \<Rightarrow> None
               | Some (s1, acc, ell) \<Rightarrow>
                   if s1 \<noteq> [] then None
                   else if length acc < 16 then
                     (case ell of
                        None \<Rightarrow> None
                      | Some e \<Rightarrow> Some (take e acc @ replicate (16 - length acc) 0 @ drop e acc))
                   else if ell \<noteq> None then None
                   else Some acc))"

definition ParseIP :: "string \<Rightarrow> byte list option" where
  "ParseIP s =
     (case find (\<lambda>c. c = CHR ''.'' \<or> c = CHR '':'') s of
        None \<Rightarrow> None
      | Some c \<Rightarrow> if c = CHR ''.'' then parseIPv4 s else parseIPv6 s)"

text \<open>The two bytes of every 16-bit group, high byte first, and \<open>BigEndian.Uint32\<close>.\<close>

definition group_bytes :: "16 word list \<Rightarrow> byte list" where
  "group_bytes gs = concat (map (\<lambda>g. [ucast (drop_bit 8 g), ucast g]) gs)"

definition Uint32 :: "byte list \<Rightarrow> 32 word" where
  "Uint32 b = ucast (b ! 3) OR push_bit 8 (ucast (b ! 2)) OR push_bit 16 (ucast (b ! 1))
     OR push_bit 24 (ucast (b ! 0))"

section \<open>Helper lemmas\<close>

text \<open>The definitions that the simplifier unfolds to evaluate a renderer on a concrete event.\<close>

lemmas getter_defs =
  GetIp_def GetPort_def GetIpv4_def GetIpv6_def GetFirst_def GetLast_def
  EndpointMeta_GetLabels_def RouteMeta_GetLabels_def GetBase_def GetStream_def GetNanos_def
  GetSeconds_def GetEvent_def GetRequestInit_def GetResponseInit_def GetResponseEnd_def
  RequestInit_GetId_def GetMethod_def GetScheme_def GetAuthority_def GetPath_def
  GetRegistered_def ResponseInit_GetId_def ResponseInit_GetSinceRequestInit_def
  GetHttpStatus_def ResponseEnd_GetId_def ResponseEnd_GetSinceRequestInit_def
  GetSinceResponseInit_def GetResponseBytes_def GetEos_def GetEnd_def GetGrpcStatusCode_def
  GetResetErrorCode_def

lemmas format_defs =
  dec_nat.simps dec_int_def digit_char_def EnumName_def TapEvent_ProxyDirection_name_def
  HttpMethod_Registered_name_def codes_Code_name_def codes_Code_String_def
  signed_divide_int_def map_index_def map_range_def

lemmas address_defs =
  getIPAddress_def IP_String_def To4_def PutUint32_def PutUint64_def ubtoa_def
  PublicAddressToString_def

lemmas render_defs =
  renderTapEvent_def flow_def resources_def formatAddr_def formatResource_def src_def dst_def
  tlsStatus_def routeLabels_def micros_def idText_def TapEvent_INBOUND_def
  TapEvent_OUTBOUND_def k8s_Pod_def k8s_Namespace_def spec_status_clause_def
  spec_res_annotation_def spec_ns_annotation_def Let_def

lemmas example_defs =
  example_event_def example_source_def example_destination_def example_id_def
  example_request_init_def example_response_init_def example_response_end_def
  example_wide_event_def example_short_name_def

lemmas eval_defs = getter_defs format_defs address_defs render_defs example_defs

lemma formatResource_spec:
  "formatResource short p kind =
     spec_res_annotation short (direction p) (labels p) kind
     @ spec_ns_annotation (direction p) (labels p) kind"
  by (auto simp: formatResource_def spec_res_annotation_def spec_ns_annotation_def
      k8s_Pod_def k8s_Namespace_def Let_def split: option.splits)

lemma resources_compact: "resources short event [] = []"
  by (simp add: resources_def)

lemma marshal_sub_not_null:
  "marshal_requestInitEvent a \<noteq> JNull"
  "marshal_responseInitEvent b \<noteq> JNull"
  "marshal_responseEndEvent c \<noteq> JNull"
  by (simp_all add: marshal_requestInitEvent_def marshal_responseInitEvent_def
      marshal_responseEndEvent_def)

lemma renderTapEvents_signal:
  "length evs \<le> room w \<Longrightarrow>
   renderTapEvents (map Inr evs @- SCons (Inl e) rest) w stderr render resource =
     Some (None,
           w\<lparr>held := held w @ map (\<lambda>ev. render ev resource) evs, room := room w - length evs\<rparr>,
           if e = io_EOF then stderr else stderr @ [e])"
proof (induction evs arbitrary: w)
  case Nil
  show ?case by (subst renderTapEvents.simps) simp
next
  case (Cons ev evs)
  from Cons.prems have r: "room w \<noteq> 0" and l: "length evs \<le> room w - 1" by auto
  let ?w = "w\<lparr>held := held w @ [render ev resource], room := room w - 1\<rparr>"
  have "renderTapEvents (map Inr (ev # evs) @- SCons (Inl e) rest) w stderr render resource
      = renderTapEvents (map Inr evs @- SCons (Inl e) rest) ?w stderr render resource"
    using r by (subst renderTapEvents.simps) (simp add: Fprintln_def)
  also have "\<dots> = Some (None,
           ?w\<lparr>held := held ?w @ map (\<lambda>ev. render ev resource) evs, room := room ?w - length evs\<rparr>,
           if e = io_EOF then stderr else stderr @ [e])"
    using l by (intro Cons.IH) simp
  finally show ?case by simp
qed

lemma example_request_line:
  "renderTapEvent PublicAddressToString short
     (example_event (TapEvent_Http_RequestInit_w (Some example_request_init))) [] =
   ''req id=1:2 proxy=in  src=10.0.0.1:80 dst=10.0.0.2:8080 tls= :method=GET :authority=example.com :path=/x''"
  by (simp add: eval_defs)

text \<open>
  A wrapper that holds a nil message carries no lifecycle variant for the mapper, which
  leaves all three sub-records absent, while the line renderer, which looks at the wrapper
  only, prints a request line of zero values.
\<close>

lemma nil_message_in_wrapper:
  "RequestInitEvent (mapPublicToDisplayTapEvent (example_event (TapEvent_Http_RequestInit_w None))) = None
   \<and> ResponseInitEvent (mapPublicToDisplayTapEvent (example_event (TapEvent_Http_RequestInit_w None))) = None
   \<and> ResponseEndEvent (mapPublicToDisplayTapEvent (example_event (TapEvent_Http_RequestInit_w None))) = None
   \<and> renderTapEvent PublicAddressToString short (example_event (TapEvent_Http_RequestInit_w None)) [] =
       ''req id=0:0 proxy=in  src=10.0.0.1:80 dst=10.0.0.2:8080 tls= :method=GET :authority= :path=''"
  by (simp add: eval_defs mapPublicToDisplayTapEvent_def getRequestInitEvent_def
      getResponseInitEvent_def getResponseEndEvent_def)

subsection \<open>Printing and parsing numbers\<close>

lemma lt10_cases: "(d::nat) < 10 \<Longrightarrow> d \<in> {0, 1, 2, 3, 4, 5, 6, 7, 8, 9}"
  by auto

lemma lt16_cases: "(d::nat) < 16 \<Longrightarrow> d \<in> {0, 1, 2, 3, 4, 5, 6, 7, 8, 9, 10, 11, 12, 13, 14, 15}"
  by (auto simp: eval_nat_numeral less_Suc_eq)

lemma digit_char_props:
  assumes "d < 10"
  shows "is_digit (digit_char d)" and "char_diff (digit_char d) CHR ''0'' = d"
  using lt10_cases [OF assms]
  by (auto simp: is_digit_def char_diff_def digit_char_def less_eq_char_def)

lemma hex_char_props:
  assumes "d < 16"
  shows "is_digit (hex_char d) \<or> is_lower_hex (hex_char d)"
    and "is_digit (hex_char d) \<Longrightarrow> char_diff (hex_char d) CHR ''0'' = d"
    and "\<not> is_digit (hex_char d) \<Longrightarrow> char_diff (hex_char d) CHR ''a'' + 10 = d"
    and "hex_char d \<noteq> CHR '':''" and "hex_char d \<noteq> CHR ''.''"
  using lt16_cases [OF assms]
  by (auto simp: is_digit_def is_lower_hex_def char_diff_def hex_char_def less_eq_char_def)

lemma sep_not_digit:
  "\<not> is_digit CHR ''.''" "\<not> is_digit CHR '':''"
  "\<not> is_lower_hex CHR '':''" "\<not> is_upper_hex CHR '':''"
  by (simp_all add: is_digit_def is_lower_hex_def is_upper_hex_def less_eq_char_def)

lemma dec_nat_nonempty: "dec_nat m \<noteq> []"
  by (subst dec_nat.simps) simp

lemma dtoi_loop_dec_nat:
  "n0 * 10 ^ length (dec_nat m) + m < big \<Longrightarrow>
   dtoi_loop n0 i (dec_nat m @ rest) =
     dtoi_loop (n0 * 10 ^ length (dec_nat m) + m) (i + length (dec_nat m)) rest"
proof (induction m arbitrary: n0 i rest rule: dec_nat.induct)
  case (1 m)
  show ?case
  proof (cases "m < 10")
    case True
    then have d: "dec_nat m = [digit_char m]" by (subst dec_nat.simps) simp
    from "1.prems" have "n0 * 10 + m < big" by (simp add: d)
    then show ?thesis
      using True by (simp add: d digit_char_props Let_def)
  next
    case False
    let ?q = "m div 10" and ?r = "m mod 10"
    have d: "dec_nat m = dec_nat ?q @ [digit_char ?r]"
      using False by (subst dec_nat.simps) simp
    let ?L = "length (dec_nat ?q)"
    have len: "length (dec_nat m) = Suc ?L" by (simp add: d)
    have eq: "(n0 * 10 ^ ?L + ?q) * 10 + ?r = n0 * 10 ^ length (dec_nat m) + m"
      by (simp add: len algebra_simps)
    have fin: "(n0 * 10 ^ ?L + ?q) * 10 + ?r < big"
      using "1.prems" by (simp only: eq)
    then have pre: "n0 * 10 ^ ?L + ?q < big" by simp
    have r: "?r < 10" by simp
    have "dtoi_loop n0 i (dec_nat m @ rest) =
          dtoi_loop n0 i (dec_nat ?q @ (digit_char ?r # rest))"
      by (simp add: d)
    also have "\<dots> = dtoi_loop (n0 * 10 ^ ?L + ?q) (i + ?L) (digit_char ?r # rest)"
      using False pre by (intro "1.IH") simp_all
    also have "\<dots> = dtoi_loop ((n0 * 10 ^ ?L + ?q) * 10 + ?r) (i + ?L + 1) rest"
      using fin by (simp add: digit_char_props [OF r] Let_def del: mult_Suc_right)
    finally show ?thesis by (simp only: eq len) simp
  qed
qed

lemma dtoi_dec_nat:
  assumes "m < big" and "rest = [] \<or> \<not> is_digit (hd rest)"
  shows "dtoi (dec_nat m @ rest) = (m, length (dec_nat m), True)"
proof -
  have "dtoi_loop 0 0 (dec_nat m @ rest) = dtoi_loop m (length (dec_nat m)) rest"
    using dtoi_loop_dec_nat [of 0 m 0 rest] assms(1) by simp
  also have "\<dots> = (m, length (dec_nat m), True)"
    using assms(2) by (cases rest) auto
  finally show ?thesis
    using dec_nat_nonempty [of m] by (simp add: dtoi_def)
qed

lemma hex_nat_nonempty: "hex_nat m \<noteq> []"
  by (subst hex_nat.simps) simp

lemma xtoi_step:
  assumes "d < 16" and "n * 16 + d < big"
  shows "xtoi_loop n i (hex_char d # rest) = xtoi_loop (n * 16 + d) (i + 1) rest"
proof (cases "is_digit (hex_char d)")
  case True
  then show ?thesis
    using assms(2) hex_char_props(2) [OF assms(1)] by (simp add: Let_def)
next
  case False
  then have "is_lower_hex (hex_char d)" using hex_char_props(1) [OF assms(1)] by simp
  then show ?thesis
    using False assms(2) hex_char_props(3) [OF assms(1)] by (simp add: Let_def)
qed

lemma xtoi_loop_hex_nat:
  "n0 * 16 ^ length (hex_nat m) + m < big \<Longrightarrow>
   xtoi_loop n0 i (hex_nat m @ rest) =
     xtoi_loop (n0 * 16 ^ length (hex_nat m) + m) (i + length (hex_nat m)) rest"
proof (induction m arbitrary: n0 i rest rule: hex_nat.induct)
  case (1 m)
  show ?case
  proof (cases "m < 16")
    case True
    then have d: "hex_nat m = [hex_char m]" by (subst hex_nat.simps) simp
    from "1.prems" have b: "n0 * 16 + m < big" by (simp add: d)
    show ?thesis
      using xtoi_step [OF True b, of i rest] by (simp add: d del: xtoi_loop.simps)
  next
    case False
    let ?q = "m div 16" and ?r = "m mod 16"
    have d: "hex_nat m = hex_nat ?q @ [hex_char ?r]"
      using False by (subst hex_nat.simps) simp
    let ?L = "length (hex_nat ?q)"
    have len: "length (hex_nat m) = Suc ?L" by (simp add: d)
    have eq: "(n0 * 16 ^ ?L + ?q) * 16 + ?r = n0 * 16 ^ length (hex_nat m) + m"
      by (simp add: len algebra_simps)
    have fin: "(n0 * 16 ^ ?L + ?q) * 16 + ?r < big"
      using "1.prems" by (simp only: eq)
    then have pre: "n0 * 16 ^ ?L + ?q < big" by simp
    have r: "?r < 16" by simp
    have "xtoi_loop n0 i (hex_nat m @ rest) =
          xtoi_loop n0 i (hex_nat ?q @ (hex_char ?r # rest))"
      by (simp add: d)
    also have "\<dots> = xtoi_loop (n0 * 16 ^ ?L + ?q) (i + ?L) (hex_char ?r # rest)"
      using False pre by (intro "1.IH") simp_all
    also have "\<dots> = xtoi_loop ((n0 * 16 ^ ?L + ?q) * 16 + ?r) (i + ?L + 1) rest"
      using fin r by (rule xtoi_step [rotated])
    finally show ?thesis by (simp only: eq len) simp
  qed
qed

lemma xtoi_hex_nat:
  assumes "m < big" and "rest = [] \<or> hd rest = CHR '':''"
  shows "xtoi (hex_nat m @ rest) = (m, length (hex_nat m), True)"
proof -
  have "xtoi_loop 0 0 (hex_nat m @ rest) = xtoi_loop m (length (hex_nat m)) rest"
    using xtoi_loop_hex_nat [of 0 m 0 rest] assms(1) by simp
  also have "\<dots> = (m, length (hex_nat m), True)"
    using assms(2) by (cases rest) (auto simp: sep_not_digit)
  finally show ?thesis
    using hex_nat_nonempty [of m] by (simp add: xtoi_def)
qed

lemma dec_nat_digits: "c \<in> set (dec_nat m) \<Longrightarrow> is_digit c"
proof (induction m rule: dec_nat.induct)
  case (1 m)
  show ?case
  proof (cases "m < 10")
    case True
    with "1.prems" show ?thesis
      by (subst (asm) dec_nat.simps) (simp add: digit_char_props)
  next
    case False
    have r: "m mod 10 < 10" by simp
    from False "1.prems" have "c \<in> set (dec_nat (m div 10)) \<or> c = digit_char (m mod 10)"
      by (subst (asm) dec_nat.simps) auto
    then show ?thesis
      using "1.IH" [OF False] digit_char_props(1) [OF r] by auto
  qed
qed

lemma hex_nat_chars: "c \<in> set (hex_nat m) \<Longrightarrow> c \<noteq> CHR '':'' \<and> c \<noteq> CHR ''.''"
proof (induction m rule: hex_nat.induct)
  case (1 m)
  show ?case
  proof (cases "m < 16")
    case True
    with "1.prems" show ?thesis
      by (subst (asm) hex_nat.simps) (simp add: hex_char_props)
  next
    case False
    have r: "m mod 16 < 16" by simp
    from False "1.prems" have "c \<in> set (hex_nat (m div 16)) \<or> c = hex_char (m mod 16)"
      by (subst (asm) hex_nat.simps) auto
    then show ?thesis
      using "1.IH" [OF False] hex_char_props(4,5) [OF r] by auto
  qed
qed

lemma digit_not_sep: "is_digit c \<Longrightarrow> c \<noteq> CHR ''.'' \<and> c \<noteq> CHR '':''"
  using sep_not_digit by auto

lemma find_first_sep:
  "\<forall>x \<in> set xs. \<not> P x \<Longrightarrow> P c \<Longrightarrow> find P (xs @ c # rest) = Some c"
  by (induction xs) auto

lemma parseIPv4_step_first:
  assumes "m \<le> 255" and "rest = [] \<or> \<not> is_digit (hd rest)"
  shows "parseIPv4_loop (Suc k) True (dec_nat m @ rest) p =
         parseIPv4_loop k False rest (p @ [of_nat m])"
proof -
  have "m < big" using assms(1) by (simp add: big_def)
  then have "dtoi (dec_nat m @ rest) = (m, length (dec_nat m), True)"
    using assms(2) by (rule dtoi_dec_nat)
  then show ?thesis
    using assms(1) dec_nat_nonempty [of m] by simp
qed

lemma parseIPv4_step_next:
  assumes "m \<le> 255" and "rest = [] \<or> \<not> is_digit (hd rest)"
  shows "parseIPv4_loop (Suc k) False (CHR ''.'' # dec_nat m @ rest) p =
         parseIPv4_loop k False rest (p @ [of_nat m])"
proof -
  have "m < big" using assms(1) by (simp add: big_def)
  then have "dtoi (dec_nat m @ rest) = (m, length (dec_nat m), True)"
    using assms(2) by (rule dtoi_dec_nat)
  then show ?thesis
    using assms(1) by simp
qed

lemma unat_byte_le: "unat (b :: byte) \<le> 255"
  using unsigned_less [of b, where ?'a = nat] by simp

lemma parseIPv4_dotted:
  "parseIPv4 (intercalate ''.'' (map ubtoa [a, b, c, d])) = Some (IPv4 [a, b, c, d])"
proof -
  have t: "intercalate ''.'' (map ubtoa [a, b, c, d]) =
      dec_nat (unat a) @ (CHR ''.'' # dec_nat (unat b) @ (CHR ''.'' # dec_nat (unat c)
        @ (CHR ''.'' # dec_nat (unat d) @ [])))"
    by (simp add: ubtoa_def)
  have "parseIPv4_loop (Suc (Suc (Suc (Suc 0)))) True (intercalate ''.'' (map ubtoa [a, b, c, d])) [] =
      parseIPv4_loop 0 False [] [a, b, c, d]"
    unfolding t
    by (simp only: parseIPv4_step_first parseIPv4_step_next unat_byte_le sep_not_digit
        list.sel simp_thms of_nat_unat ucast_id append_Nil append_Cons)
  then show ?thesis
    by (simp add: parseIPv4_def eval_nat_numeral)
qed

lemma ParseIP_dotted:
  "ParseIP (intercalate ''.'' (map ubtoa [a, b, c, d])) = Some (IPv4 [a, b, c, d])"
proof -
  have f: "find (\<lambda>c. c = CHR ''.'' \<or> c = CHR '':'') (intercalate ''.'' (map ubtoa [a, b, c, d])) =
      Some CHR ''.''"
    using dec_nat_digits digit_not_sep
    by (simp add: ubtoa_def) (rule find_first_sep, auto)
  show ?thesis
    unfolding ParseIP_def f parseIPv4_dotted by simp
qed

subsection \<open>Bytes, groups and words\<close>

lemma Uint32_PutUint32: "Uint32 (PutUint32 v) = v"
proof (rule bit_word_eqI)
  fix n :: nat
  assume "n < LENGTH(32)"
  then have "n < 32" by simp
  then consider "n < 8" | "8 \<le> n" "n < 16" | "16 \<le> n" "n < 24" | "24 \<le> n" "n < 32"
    by linarith
  then show "bit (Uint32 (PutUint32 v)) n = bit v n"
    by cases (auto simp: Uint32_def PutUint32_def bit_simps)
qed

lemma group_split:
  "ucast (drop_bit 8 (push_bit 8 (ucast (h :: byte)) OR ucast (l :: byte) :: 16 word)) = h"
  "ucast (push_bit 8 (ucast (h :: byte)) OR ucast (l :: byte) :: 16 word) = l"
  by (rule bit_word_eqI; auto simp: bit_simps dest: bit_imp_le_length)+

lemma group_bytes_groups16: "even (length bs) \<Longrightarrow> group_bytes (groups16 bs) = bs"
proof (induction bs rule: groups16.induct)
  case (1 hi lo bs)
  then have "group_bytes (groups16 bs) = bs" by simp
  then show ?case
    unfolding groups16.simps group_bytes_def list.map concat.simps group_split by simp
qed (simp_all add: group_bytes_def)

lemma parsed_group_bytes:
  "(of_nat (unat (g :: 16 word) div 256) :: byte) = ucast (drop_bit 8 g)"
  "(of_nat (unat g) :: byte) = ucast g"
proof -
  have "unat (drop_bit 8 g) = unat g div 256"
    by (simp add: drop_bit_eq_div unat_div)
  then have "(of_nat (unat g div 256) :: byte) = of_nat (unat (drop_bit 8 g))" by simp
  then show "(of_nat (unat g div 256) :: byte) = ucast (drop_bit 8 g)"
    by (simp only: of_nat_unat)
  show "(of_nat (unat g) :: byte) = ucast g" by (simp only: of_nat_unat)
qed

subsection \<open>Parsing a printed list of groups\<close>

lemma unat_group_lt_big: "unat (g :: 16 word) < big"
  using unsigned_less [of g, where ?'a = nat] by (simp add: big_def)

lemma unat_group_le: "\<not> unat (g :: 16 word) > 0xFFFF"
  using unsigned_less [of g, where ?'a = nat] by simp

lemma appendHex_nonempty: "appendHex g \<noteq> []"
  by (simp add: appendHex_def hex_nat_nonempty)

lemma appendHex_chars: "c \<in> set (appendHex g) \<Longrightarrow> c \<noteq> CHR '':'' \<and> c \<noteq> CHR ''.''"
  by (simp add: appendHex_def hex_nat_chars)

lemma hd_appendHex: "hd (appendHex g @ rest) \<noteq> CHR '':''"
  using appendHex_chars [of "hd (appendHex g)" g] appendHex_nonempty [of g]
  by (cases "appendHex g") auto

lemma xtoi_group:
  assumes "rest = [] \<or> hd rest = CHR '':''"
  shows "xtoi (appendHex g @ rest) = (unat g, length (appendHex g), True)"
  unfolding appendHex_def using unat_group_lt_big assms by (rule xtoi_hex_nat)

lemma groups_text_Cons:
  "intercalate '':'' (map appendHex (g # g' # gs)) =
     appendHex g @ CHR '':'' # intercalate '':'' (map appendHex (g' # gs))"
  by simp

lemma intercalate_starts:
  "xs \<noteq> [] \<Longrightarrow> \<exists>rest. intercalate sep xs = hd xs @ rest"
  by (induction sep xs rule: intercalate.induct) auto

lemma groups_text_starts:
  assumes "gs \<noteq> []"
  shows "\<exists>rest. intercalate '':'' (map appendHex gs) = appendHex (hd gs) @ rest"
  using intercalate_starts [of "map appendHex gs" "'':''"] assms by (simp add: hd_map)

lemma groups_text_nonempty: "gs \<noteq> [] \<Longrightarrow> intercalate '':'' (map appendHex gs) \<noteq> []"
  using groups_text_starts [of gs] appendHex_nonempty by auto

lemma hd_groups_text:
  "gs \<noteq> [] \<Longrightarrow> hd (intercalate '':'' (map appendHex gs) @ rest) \<noteq> CHR '':''"
  using groups_text_starts [of gs] hd_appendHex by (metis append.assoc)

lemma groups_text_empty_iff: "intercalate '':'' (map appendHex gs) = [] \<longleftrightarrow> gs = []"
  using groups_text_nonempty by auto

lemma parse_groups:
  assumes "gs \<noteq> []" and "length acc + 2 * length gs \<le> 16"
  shows "parseIPv6_loop (intercalate '':'' (map appendHex gs)) acc ell =
         Some ([], acc @ group_bytes gs, ell)"
  using assms
proof (induction gs arbitrary: acc rule: list_nonempty_induct)
  case (single g)
  have x: "xtoi (appendHex g) = (unat g, length (appendHex g), True)"
    using xtoi_group [of "[]" g] by simp
  from single have l: "length acc < 16" by simp
  show ?case
    using l by (subst parseIPv6_loop.simps)
      (simp add: x unat_group_le parsed_group_bytes group_bytes_def)
next
  case (cons g gs)
  let ?T = "intercalate '':'' (map appendHex gs)"
  obtain g' gs' where gs: "gs = g' # gs'" using cons.hyps by (cases gs) auto
  have t: "intercalate '':'' (map appendHex (g # gs)) = appendHex g @ CHR '':'' # ?T"
    by (simp add: gs)
  have x: "xtoi (appendHex g @ CHR '':'' # rest) = (unat g, length (appendHex g), True)" for rest
    by (rule xtoi_group) simp
  have ne: "?T \<noteq> []" using cons.hyps by (rule groups_text_nonempty)
  have hd: "hd ?T \<noteq> CHR '':''" using hd_groups_text [OF cons.hyps, of "[]"] by simp
  from cons.prems have l: "length acc < 16" by simp
  let ?acc = "acc @ [ucast (drop_bit 8 g), ucast g]"
  have "parseIPv6_loop (intercalate '':'' (map appendHex (g # gs))) acc ell =
        parseIPv6_loop ?T ?acc ell"
    unfolding t using l ne hd
    by (subst parseIPv6_loop.simps) (simp add: x unat_group_le parsed_group_bytes)
  also have "\<dots> = Some ([], ?acc @ group_bytes gs, ell)"
    using cons.prems by (intro cons.IH) simp
  finally show ?case by (simp add: group_bytes_def)
qed

lemma parse_groups_ellipsis:
  assumes "before \<noteq> []" and "length acc + 2 * length before + 2 * length after \<le> 16"
  shows "parseIPv6_loop (intercalate '':'' (map appendHex before) @ ''::''
            @ intercalate '':'' (map appendHex after)) acc None =
         Some ([], acc @ group_bytes before @ group_bytes after,
               Some (length acc + 2 * length before))"
  using assms
proof (induction before arbitrary: acc rule: list_nonempty_induct)
  case (single g)
  let ?A = "intercalate '':'' (map appendHex after)"
  let ?acc = "acc @ [ucast (drop_bit 8 g), ucast g]"
  have t: "intercalate '':'' (map appendHex [g]) @ ''::'' @ ?A =
      appendHex g @ CHR '':'' # CHR '':'' # ?A"
    by simp
  have x: "xtoi (appendHex g @ CHR '':'' # rest) = (unat g, length (appendHex g), True)" for rest
    by (rule xtoi_group) simp
  from single have l: "length acc < 16" by simp
  show ?case
  proof (cases "after = []")
    case True
    then have a: "?A = []" by simp
    show ?thesis
      unfolding t a using l True
      by (subst parseIPv6_loop.simps)
        (simp add: x unat_group_le parsed_group_bytes group_bytes_def)
  next
    case False
    then have ne: "?A \<noteq> []" by (rule groups_text_nonempty)
    have "parseIPv6_loop (intercalate '':'' (map appendHex [g]) @ ''::'' @ ?A) acc None =
          parseIPv6_loop ?A ?acc (Some (length ?acc))"
      unfolding t using l ne
      by (subst parseIPv6_loop.simps) (simp add: x unat_group_le parsed_group_bytes)
    also have "\<dots> = Some ([], ?acc @ group_bytes after, Some (length ?acc))"
      using False single.prems by (intro parse_groups) simp_all
    finally show ?thesis by (simp add: group_bytes_def)
  qed
next
  case (cons g gs)
  let ?T = "intercalate '':'' (map appendHex gs) @ ''::'' @ intercalate '':'' (map appendHex after)"
  let ?acc = "acc @ [ucast (drop_bit 8 g), ucast g]"
  obtain g' gs' where gs: "gs = g' # gs'" using cons.hyps by (cases gs) auto
  have t: "intercalate '':'' (map appendHex (g # gs)) @ ''::''
            @ intercalate '':'' (map appendHex after) = appendHex g @ CHR '':'' # ?T"
    by (simp add: gs)
  have x: "xtoi (appendHex g @ CHR '':'' # rest) = (unat g, length (appendHex g), True)" for rest
    by (rule xtoi_group) simp
  have ne: "?T \<noteq> []" by simp
  have hd: "hd ?T \<noteq> CHR '':''" using cons.hyps by (rule hd_groups_text)
  from cons.prems have l: "length acc < 16" by simp
  have "parseIPv6_loop (intercalate '':'' (map appendHex (g # gs)) @ ''::''
            @ intercalate '':'' (map appendHex after)) acc None =
        parseIPv6_loop ?T ?acc None"
    unfolding t using l ne hd
    by (subst parseIPv6_loop.simps) (simp add: x unat_group_le parsed_group_bytes)
  also have "\<dots> = Some ([], ?acc @ group_bytes gs @ group_bytes after,
               Some (length ?acc + 2 * length gs))"
    using cons.prems by (intro cons.IH) simp
  finally show ?case by (simp add: group_bytes_def)
qed

lemma group_bytes_append: "group_bytes (xs @ ys) = group_bytes xs @ group_bytes ys"
  by (simp add: group_bytes_def)

lemma group_bytes_zeros: "group_bytes (replicate k 0) = replicate (2 * k) 0"
  by (induction k) (simp_all add: group_bytes_def)

lemma length_group_bytes: "length (group_bytes gs) = 2 * length gs"
  by (induction gs) (simp_all add: group_bytes_def)

lemma parseIPv6_plain:
  assumes "length gs = 8"
  shows "parseIPv6 (intercalate '':'' (map appendHex gs)) = Some (group_bytes gs)"
proof -
  let ?T = "intercalate '':'' (map appendHex gs)"
  from assms have ne: "gs \<noteq> []" by auto
  have hd: "hd ?T \<noteq> CHR '':''" using hd_groups_text [OF ne, of "[]"] by simp
  have tne: "?T \<noteq> []" using ne by (rule groups_text_nonempty)
  have lead: "(length ?T \<ge> 2 \<and> ?T ! 0 = CHR '':'' \<and> ?T ! 1 = CHR '':'') = False"
    using hd tne by (simp add: hd_conv_nth)
  have p: "parseIPv6_loop ?T [] None = Some ([], [] @ group_bytes gs, None)"
    using ne assms by (intro parse_groups) simp_all
  show ?thesis
    unfolding parseIPv6_def Let_def lead if_False p
    by (simp add: length_group_bytes assms)
qed

lemma parseIPv6_leading_ellipsis:
  assumes "length after < 8"
  shows "parseIPv6 (''::'' @ intercalate '':'' (map appendHex after)) =
         Some (group_bytes (replicate (8 - length after) 0 @ after))"
proof (cases "after = []")
  case True
  then show ?thesis
    by (simp add: parseIPv6_def group_bytes_zeros)
next
  case False
  let ?T = "intercalate '':'' (map appendHex after)"
  have tne: "?T \<noteq> []" using False by (rule groups_text_nonempty)
  have p: "parseIPv6_loop ?T [] (Some 0) = Some ([], [] @ group_bytes after, Some 0)"
    using False assms by (intro parse_groups) simp_all
  have lead: "(length (''::'' @ ?T) \<ge> 2 \<and> (''::'' @ ?T) ! 0 = CHR '':''
      \<and> (''::'' @ ?T) ! 1 = CHR '':'') = True"
    by simp
  have d: "drop 2 (''::'' @ ?T) = ?T" by simp
  show ?thesis
    unfolding parseIPv6_def Let_def lead if_True d p using tne assms
    by (simp add: length_group_bytes group_bytes_append group_bytes_zeros algebra_simps)
qed

lemma parseIPv6_middle_ellipsis:
  assumes "before \<noteq> []" and "length before + length after < 8"
  shows "parseIPv6 (intercalate '':'' (map appendHex before) @ ''::''
            @ intercalate '':'' (map appendHex after)) =
         Some (group_bytes (before @ replicate (8 - length before - length after) 0 @ after))"
proof -
  let ?T = "intercalate '':'' (map appendHex before) @ ''::''
            @ intercalate '':'' (map appendHex after)"
  have hd: "hd ?T \<noteq> CHR '':''" using assms(1) by (rule hd_groups_text)
  have lead: "(length ?T \<ge> 2 \<and> ?T ! 0 = CHR '':'' \<and> ?T ! 1 = CHR '':'') = False"
    using hd by (simp add: hd_conv_nth)
  have p: "parseIPv6_loop ?T [] None =
      Some ([], [] @ group_bytes before @ group_bytes after,
            Some (length ([] :: byte list) + 2 * length before))"
    using assms by (intro parse_groups_ellipsis) simp_all
  show ?thesis
    unfolding parseIPv6_def Let_def lead if_False p using assms(2)
    by (simp add: length_group_bytes group_bytes_append group_bytes_zeros algebra_simps)
qed

subsection \<open>The longest run of zero groups\<close>

lemma takeWhile_holds: "j < length (takeWhile P xs) \<Longrightarrow> P (xs ! j)"
  by (metis nth_mem set_takeWhileD takeWhile_nth)

lemma zero_run_end_ge: "i \<le> zero_run_end gs i"
  by (simp add: zero_run_end_def)

lemma zero_run_end_le: "i \<le> length gs \<Longrightarrow> zero_run_end gs i \<le> length gs"
proof -
  assume "i \<le> length gs"
  have "length (takeWhile (\<lambda>g. g = 0) (drop i gs)) \<le> length (drop i gs)"
    by (rule length_takeWhile_le)
  then show ?thesis using \<open>i \<le> length gs\<close> by (simp add: zero_run_end_def)
qed

lemma zero_run_zero:
  assumes "i \<le> k" and "k < zero_run_end gs i"
  shows "gs ! k = 0"
proof -
  from assms have "k - i < length (takeWhile (\<lambda>g. g = 0) (drop i gs))"
    by (simp add: zero_run_end_def)
  then have z: "drop i gs ! (k - i) = 0" by (rule takeWhile_holds)
  have "length (takeWhile (\<lambda>g. g = 0) (drop i gs)) \<le> length (drop i gs)"
    by (rule length_takeWhile_le)
  with assms have "k < length gs" by (simp add: zero_run_end_def)
  with assms(1) z show ?thesis by simp
qed

lemma longest_zero_run_inv:
  assumes "longest_zero_run gs i (e0, e1) = (a, b)"
    and "(e0 = - 1 \<and> e1 = - 1) \<or>
         (0 \<le> e0 \<and> e0 < e1 \<and> e1 \<le> int (length gs) \<and> (\<forall>k. nat e0 \<le> k \<and> k < nat e1 \<longrightarrow> gs ! k = 0))"
  shows "(a = - 1 \<and> b = - 1) \<or>
         (0 \<le> a \<and> a < b \<and> b \<le> int (length gs) \<and> (\<forall>k. nat a \<le> k \<and> k < nat b \<longrightarrow> gs ! k = 0))"
  using assms
proof (induction gs i "(e0, e1)" arbitrary: e0 e1 rule: longest_zero_run.induct)
  case (1 gs i e0 e1)
  show ?case
  proof (cases "i < length gs")
    case False
    with "1.prems" show ?thesis by (simp add: longest_zero_run.simps)
  next
    case True
    let ?j = "zero_run_end gs i"
    show ?thesis
    proof (cases "?j > i \<and> int ?j - int i > e1 - e0")
      case yes: True
      have r: "longest_zero_run gs (?j + 1) (int i, int ?j) = (a, b)"
        using "1.prems"(1) True yes by (subst (asm) longest_zero_run.simps) (simp add: Let_def)
      have le: "?j \<le> length gs" using True by (intro zero_run_end_le) simp
      have inv: "0 \<le> int i \<and> int i < int ?j \<and> int ?j \<le> int (length gs)
          \<and> (\<forall>k. nat (int i) \<le> k \<and> k < nat (int ?j) \<longrightarrow> gs ! k = 0)"
        using yes le zero_run_zero [of i _ gs] by auto
      show ?thesis
        using "1.hyps"(1) [OF True refl yes r] inv by blast
    next
      case no: False
      have r: "longest_zero_run gs (i + 1) (e0, e1) = (a, b)"
        using "1.prems"(1) True no by (subst (asm) longest_zero_run.simps) (simp add: Let_def)
      show ?thesis
        using "1.hyps"(2) [OF True refl no r] "1.prems"(2) by blast
    qed
  qed
qed

subsection \<open>Parsing a printed address\<close>

lemma find_colon:
  "CHR ''.'' \<notin> set s \<Longrightarrow> CHR '':'' \<in> set s \<Longrightarrow>
   find (\<lambda>c. c = CHR ''.'' \<or> c = CHR '':'') s = Some CHR '':''"
  by (induction s) auto

lemma set_intercalate: "set (intercalate sep xs) \<subseteq> set sep \<union> \<Union> (set ` set xs)"
  by (induction sep xs rule: intercalate.induct) auto

lemma groups_text_no_dot: "CHR ''.'' \<notin> set (intercalate '':'' (map appendHex gs))"
proof
  assume "CHR ''.'' \<in> set (intercalate '':'' (map appendHex gs))"
  then have "CHR ''.'' \<in> set '':'' \<union> \<Union> (set ` set (map appendHex gs))"
    using set_intercalate by blast
  then obtain g where "CHR ''.'' \<in> set (appendHex g)" by auto
  then show False using appendHex_chars by blast
qed

lemma groups_text_has_colon:
  "2 \<le> length gs \<Longrightarrow> CHR '':'' \<in> set (intercalate '':'' (map appendHex gs))"
  by (cases gs; cases "tl gs") auto

lemma zero_run_split:
  assumes "a \<le> b" and "b \<le> length gs" and "\<forall>k. a \<le> k \<and> k < b \<longrightarrow> gs ! k = (0 :: 16 word)"
  shows "gs = take a gs @ replicate (b - a) 0 @ drop b gs"
proof (rule nth_equalityI)
  show "length gs = length (take a gs @ replicate (b - a) 0 @ drop b gs)"
    using assms(1,2) by simp
next
  fix i assume i: "i < length gs"
  consider "i < a" | "a \<le> i" "i < b" | "b \<le> i" by linarith
  then show "gs ! i = (take a gs @ replicate (b - a) 0 @ drop b gs) ! i"
  proof cases
    case 1
    then show ?thesis using assms(1,2) by (simp add: nth_append)
  next
    case 2
    then have "i - a < b - a" by arith
    with 2 show ?thesis using assms by (simp add: nth_append)
  next
    case 3
    with assms(1) have n: "\<not> i < a" "\<not> i - a < b - a" "i - a - (b - a) = i - b" "b + (i - b) = i"
      by arith+
    show ?thesis using assms(1,2) i n by (simp add: nth_append)
  qed
qed

lemma ParseIP_ipv6_text:
  assumes "length gs = 8"
  shows "ParseIP (ipv6_text gs) = Some (group_bytes gs)"
proof -
  obtain e0 e1 where r: "longest_zero_run gs 0 (- 1, - 1) = (e0, e1)"
    by (cases "longest_zero_run gs 0 (- 1, - 1)") auto
  have inv: "(e0 = - 1 \<and> e1 = - 1) \<or>
      (0 \<le> e0 \<and> e0 < e1 \<and> e1 \<le> int (length gs)
        \<and> (\<forall>k. nat e0 \<le> k \<and> k < nat e1 \<longrightarrow> gs ! k = 0))"
    using longest_zero_run_inv [OF r] by simp
  show ?thesis
  proof (cases "e1 - e0 \<le> 1")
    case True
    then have t: "ipv6_text gs = intercalate '':'' (map appendHex gs)"
      by (simp add: ipv6_text_def r)
    have f: "find (\<lambda>c. c = CHR ''.'' \<or> c = CHR '':'') (ipv6_text gs) = Some CHR '':''"
      unfolding t using assms by (intro find_colon groups_text_no_dot groups_text_has_colon) simp
    show ?thesis
      unfolding ParseIP_def f using assms by (simp add: t parseIPv6_plain)
  next
    case False
    with inv have b: "0 \<le> e0" "e0 < e1" "e1 \<le> int (length gs)"
      and z: "\<forall>k. nat e0 \<le> k \<and> k < nat e1 \<longrightarrow> gs ! k = 0"
      by auto
    let ?a = "nat e0" and ?b = "nat e1"
    let ?before = "take ?a gs" and ?after = "drop ?b gs"
    have ab: "?a < ?b" "?b \<le> length gs" using b by auto
    have t: "ipv6_text gs = intercalate '':'' (map appendHex ?before) @ ''::''
        @ intercalate '':'' (map appendHex ?after)"
      using False by (simp add: ipv6_text_def r)
    have split: "gs = ?before @ replicate (?b - ?a) 0 @ ?after"
      using ab z by (intro zero_run_split) auto
    have lens: "length ?before + length ?after < 8"
      "8 - length ?before - length ?after = ?b - ?a"
      using ab assms by auto
    have f: "find (\<lambda>c. c = CHR ''.'' \<or> c = CHR '':'') (ipv6_text gs) = Some CHR '':''"
      unfolding t using groups_text_no_dot by (intro find_colon) auto
    have "parseIPv6 (ipv6_text gs) =
        Some (group_bytes (?before @ replicate (?b - ?a) 0 @ ?after))"
    proof (cases "?before = []")
      case True
      have p: "parseIPv6 (''::'' @ intercalate '':'' (map appendHex ?after)) =
          Some (group_bytes (replicate (8 - length ?after) 0 @ ?after))"
        using lens(1) by (intro parseIPv6_leading_ellipsis) simp
      have e: "8 - length ?after = ?b - ?a"
        using lens(2) by (simp only: True list.size) simp
      have t': "ipv6_text gs = ''::'' @ intercalate '':'' (map appendHex ?after)"
        by (simp only: t True list.map intercalate.simps append_Nil)
      show ?thesis
        by (simp only: t' p e True append_Nil)
    next
      case False
      have "parseIPv6 (intercalate '':'' (map appendHex ?before) @ ''::''
            @ intercalate '':'' (map appendHex ?after)) =
          Some (group_bytes (?before @ replicate (8 - length ?before - length ?after) 0 @ ?after))"
        using False lens(1) by (rule parseIPv6_middle_ellipsis)
      then show ?thesis
        by (simp only: t lens(2))
    qed
    then show ?thesis
      unfolding ParseIP_def f using split by simp
  qed
qed

lemma length4_list: "length xs = 4 \<Longrightarrow> \<exists>a b c d. xs = [a, b, c, d]"
  by (auto simp: length_Suc_conv eval_nat_numeral)

lemma all_zero_replicate: "list_all (\<lambda>b. b = (0 :: byte)) xs \<Longrightarrow> xs = replicate (length xs) 0"
  by (induction xs) auto

lemma length_groups16: "length (groups16 bs) = length bs div 2"
  by (induction bs rule: groups16.induct) simp_all

lemma mapped_prefix:
  assumes "length bs = 16" and "list_all (\<lambda>b. b = 0) (take 10 bs)"
    and "bs ! 10 = 0xff" and "bs ! 11 = 0xff"
  shows "v4InV6Prefix @ drop 12 bs = bs"
proof -
  have "take 10 bs = replicate 10 0"
    using all_zero_replicate [OF assms(2)] assms(1) by simp
  moreover have "take 12 bs = take 10 bs @ [bs ! 10, bs ! 11]"
    using assms(1) by (simp add: take_Suc_conv_app_nth eval_nat_numeral)
  ultimately have "take 12 bs = v4InV6Prefix"
    using assms(3,4) by (simp add: v4InV6Prefix_def eval_nat_numeral)
  then show ?thesis
    using append_take_drop_id [of 12 bs] by simp
qed

lemma ParseIP_IP_String_16:
  assumes "length bs = 16"
  shows "ParseIP (IP_String bs) = Some bs"
proof (cases "To4 bs")
  case None
  have e: "even (length bs)" using assms by simp
  have "IP_String bs = ipv6_text (groups16 bs)"
    using assms None by (simp add: IP_String_def)
  moreover have "length (groups16 bs) = 8"
    using assms by (simp add: length_groups16)
  ultimately show ?thesis
    using ParseIP_ipv6_text [of "groups16 bs"] group_bytes_groups16 [OF e] by simp
next
  case (Some p4)
  then have c: "list_all (\<lambda>b. b = 0) (take 10 bs)" "bs ! 10 = 0xff" "bs ! 11 = 0xff"
    and p4: "p4 = drop 12 bs"
    using assms by (auto simp: To4_def split: if_splits)
  have "length p4 = 4" using p4 assms by simp
  then obtain a b c d where l: "p4 = [a, b, c, d]" using length4_list by blast
  have "IP_String bs = intercalate ''.'' (map ubtoa [a, b, c, d])"
    using assms Some l by (simp add: IP_String_def)
  then have "ParseIP (IP_String bs) = Some (IPv4 p4)"
    using ParseIP_dotted [of a b c d] l by simp
  then show ?thesis
    using mapped_prefix [OF assms c] p4 by (simp add: IPv4_def)
qed

lemma ParseIP_IP_String_4:
  assumes "length bs = 4"
  shows "ParseIP (IP_String bs) = Some (IPv4 bs)" and "To4 (IPv4 bs) = Some bs"
proof -
  obtain a b c d where l: "bs = [a, b, c, d]" using assms length4_list by blast
  have "IP_String bs = intercalate ''.'' (map ubtoa [a, b, c, d])"
    by (simp add: IP_String_def To4_def l)
  then show "ParseIP (IP_String bs) = Some (IPv4 bs)"
    using ParseIP_dotted [of a b c d] l by simp
  show "To4 (IPv4 bs) = Some bs"
    by (simp add: l To4_def IPv4_def v4InV6Prefix_def)
qed

lemma length_PutUint32: "length (PutUint32 v) = 4"
  by (simp add: PutUint32_def)

lemma length_PutUint64: "length (PutUint64 v) = 8"
  by (simp add: PutUint64_def)

section \<open>The claims\<close>

text \<open>
  C1: for every TapEvent whose HTTP payload carries one of the three lifecycle variants
  (a RequestInit, ResponseInit or ResponseEnd message), \<open>mapPublicToDisplayTapEvent\<close>
  produces a display event in which exactly one of the three sub-records is present, the
  one of the variant carried, built from the fields of that message.
\<close>

theorem mapPublicToDisplayTapEvent_one_subrecord:
  "(GetEvent (Http event) = Some (TapEvent_Http_RequestInit_w (Some reqI)) \<longrightarrow>
      RequestInitEvent (mapPublicToDisplayTapEvent event) =
        Some \<lparr>requestInitEvent_ID =
                 Some \<lparr>streamID_Base = GetBase (RequestInit_Id reqI),
                       streamID_Stream = GetStream (RequestInit_Id reqI)\<rparr>,
              requestInitEvent_Method = RequestInit_Method reqI,
              requestInitEvent_Scheme = RequestInit_Scheme reqI,
              requestInitEvent_Authority = RequestInit_Authority reqI,
              requestInitEvent_Path = RequestInit_Path reqI\<rparr>
      \<and> ResponseInitEvent (mapPublicToDisplayTapEvent event) = None
      \<and> ResponseEndEvent (mapPublicToDisplayTapEvent event) = None)
   \<and> (GetEvent (Http event) = Some (TapEvent_Http_ResponseInit_w (Some resI)) \<longrightarrow>
      RequestInitEvent (mapPublicToDisplayTapEvent event) = None
      \<and> ResponseInitEvent (mapPublicToDisplayTapEvent event) =
        Some \<lparr>responseInitEvent_ID =
                 Some \<lparr>streamID_Base = GetBase (ResponseInit_Id resI),
                       streamID_Stream = GetStream (ResponseInit_Id resI)\<rparr>,
              responseInitEvent_SinceRequestInit = ResponseInit_SinceRequestInit resI,
              responseInitEvent_HTTPStatus = ResponseInit_HttpStatus resI\<rparr>
      \<and> ResponseEndEvent (mapPublicToDisplayTapEvent event) = None)
   \<and> (GetEvent (Http event) = Some (TapEvent_Http_ResponseEnd_w (Some resE)) \<longrightarrow>
      RequestInitEvent (mapPublicToDisplayTapEvent event) = None
      \<and> ResponseInitEvent (mapPublicToDisplayTapEvent event) = None
      \<and> ResponseEndEvent (mapPublicToDisplayTapEvent event) =
        Some \<lparr>responseEndEvent_ID =
                 Some \<lparr>streamID_Base = GetBase (ResponseEnd_Id resE),
                       streamID_Stream = GetStream (ResponseEnd_Id resE)\<rparr>,
              responseEndEvent_SinceRequestInit = ResponseEnd_SinceRequestInit resE,
              responseEndEvent_SinceResponseInit = ResponseEnd_SinceResponseInit resE,
              responseEndEvent_ResponseBytes = ResponseEnd_ResponseBytes resE,
              responseEndEvent_GrpcStatusCode = GetGrpcStatusCode (ResponseEnd_Eos resE),
              responseEndEvent_ResetErrorCode = GetResetErrorCode (ResponseEnd_Eos resE)\<rparr>)"
  by (simp add: mapPublicToDisplayTapEvent_def getRequestInitEvent_def getResponseInitEvent_def
      getResponseEndEvent_def GetRequestInit_def GetResponseInit_def GetResponseEnd_def
      RequestInit_GetId_def GetMethod_def GetScheme_def GetAuthority_def GetPath_def
      ResponseInit_GetId_def ResponseInit_GetSinceRequestInit_def GetHttpStatus_def
      ResponseEnd_GetId_def ResponseEnd_GetSinceRequestInit_def GetSinceResponseInit_def
      GetResponseBytes_def GetEos_def Let_def)

theorem mapPublicToDisplayTapEvent_one_subrecord_witness:
  "(RequestInitEvent (mapPublicToDisplayTapEvent
       (example_event (TapEvent_Http_RequestInit_w (Some example_request_init)))) \<noteq> None
    \<and> ResponseInitEvent (mapPublicToDisplayTapEvent
       (example_event (TapEvent_Http_RequestInit_w (Some example_request_init)))) = None
    \<and> ResponseEndEvent (mapPublicToDisplayTapEvent
       (example_event (TapEvent_Http_RequestInit_w (Some example_request_init)))) = None)
   \<and> (RequestInitEvent (mapPublicToDisplayTapEvent
       (example_event (TapEvent_Http_ResponseInit_w (Some example_response_init)))) = None
    \<and> ResponseInitEvent (mapPublicToDisplayTapEvent
       (example_event (TapEvent_Http_ResponseInit_w (Some example_response_init)))) \<noteq> None
    \<and> ResponseEndEvent (mapPublicToDisplayTapEvent
       (example_event (TapEvent_Http_ResponseInit_w (Some example_response_init)))) = None)
   \<and> (RequestInitEvent (mapPublicToDisplayTapEvent
       (example_event (TapEvent_Http_ResponseEnd_w (Some (example_response_end None))))) = None
    \<and> ResponseInitEvent (mapPublicToDisplayTapEvent
       (example_event (TapEvent_Http_ResponseEnd_w (Some (example_response_end None))))) = None
    \<and> ResponseEndEvent (mapPublicToDisplayTapEvent
       (example_event (TapEvent_Http_ResponseEnd_w (Some (example_response_end None))))) \<noteq> None)"
proof -
  have h: "GetEvent (Http (example_event payload)) = Some payload" for payload
    by (simp add: example_event_def GetEvent_def)
  show ?thesis
    using mapPublicToDisplayTapEvent_one_subrecord
            [of "example_event (TapEvent_Http_RequestInit_w (Some example_request_init))"
                example_request_init example_response_init "example_response_end None"]
          mapPublicToDisplayTapEvent_one_subrecord
            [of "example_event (TapEvent_Http_ResponseInit_w (Some example_response_init))"
                example_request_init example_response_init "example_response_end None"]
          mapPublicToDisplayTapEvent_one_subrecord
            [of "example_event (TapEvent_Http_ResponseEnd_w (Some (example_response_end None)))"
                example_request_init example_response_init "example_response_end None"]
    by (simp add: h)
qed

text \<open>
  C2: the claim asks that the \<open>latency\<close> field of a response-init line be the whole
  elapsed duration, seconds and nanoseconds, in microseconds. The renderer reads the
  nanosecond part only: for a duration of 2 s and 500000 ns it prints \<open>latency=500\<close>
  where the duration is 2000500 microseconds.
\<close>

theorem renderTapEvent_latency_drops_seconds:
  "renderTapEvent PublicAddressToString short
     (example_event (TapEvent_Http_ResponseInit_w (Some example_response_init))) [] =
   ''rsp id=1:2 proxy=in  src=10.0.0.1:80 dst=10.0.0.2:8080 tls= :status=200 latency=500''
   @ micro @ ''s''"
  by (simp add: eval_defs)

text \<open>
  C3, as amended: for every peer address in which neither an IPv6 pair nor a nonzero IPv4
  value is present, \<open>getIPAddress\<close> fails in no way and produces the text \<open><nil>\<close>, which
  is how \<open>net.IP.String\<close> prints a byte slice of length 0. The claim as written asks for
  the empty string; the counterexample is the address with no family set.
\<close>

theorem getIPAddress_absent:
  assumes "GetIpv6 ip = None" and "GetIpv4 ip = 0"
  shows "getIPAddress ip = ''<nil>''"
  using assms by (simp add: getIPAddress_def IP_String_def)

theorem getIPAddress_absent_witness:
  "GetIpv6 (Some \<lparr>IPAddress_Ip = Some (IPAddress_Ipv4 0)\<rparr>) = None
   \<and> GetIpv4 (Some \<lparr>IPAddress_Ip = Some (IPAddress_Ipv4 0)\<rparr>) = 0
   \<and> getIPAddress (Some \<lparr>IPAddress_Ip = Some (IPAddress_Ipv4 0)\<rparr>) = ''<nil>''"
proof -
  have a: "GetIpv6 (Some \<lparr>IPAddress_Ip = Some (IPAddress_Ipv4 0)\<rparr>) = None"
    by (simp add: GetIpv6_def)
  have b: "GetIpv4 (Some \<lparr>IPAddress_Ip = Some (IPAddress_Ipv4 0)\<rparr>) = 0"
    by (simp add: GetIpv4_def)
  show ?thesis using a b getIPAddress_absent [OF a b] by simp
qed

theorem getIPAddress_absent_not_empty:
  "getIPAddress (Some \<lparr>IPAddress_Ip = None\<rparr>) \<noteq> []"
  by (simp add: getIPAddress_def GetIpv6_def GetIpv4_def IP_String_def)

text \<open>
  C4: in compact mode (empty resource kind) the RequestInit event with stream id 1:2,
  registered method GET, authority \<open>example.com\<close>, path \<open>/x\<close>, direction INBOUND, source
  10.0.0.1 port 80, destination 10.0.0.2 port 8080 and no labels is rendered as exactly
  the line of the specification.
\<close>

theorem renderTapEvent_compact_request:
  "renderTapEvent PublicAddressToString short
     \<lparr>Source = Some \<lparr>TcpAddress_Ip = Some \<lparr>IPAddress_Ip = Some (IPAddress_Ipv4 0x0A000001)\<rparr>,
                      TcpAddress_Port = 80\<rparr>,
      SourceMeta = None,
      Destination = Some \<lparr>TcpAddress_Ip = Some \<lparr>IPAddress_Ip = Some (IPAddress_Ipv4 0x0A000002)\<rparr>,
                           TcpAddress_Port = 8080\<rparr>,
      DestinationMeta = None,
      TapEvent_RouteMeta = None,
      TapEvent_ProxyDirection = TapEvent_INBOUND,
      Http = Some \<lparr>Http_Event = Some (TapEvent_Http_RequestInit_w (Some
        \<lparr>RequestInit_Id = Some \<lparr>StreamId_Base = 1, StreamId_Stream = 2\<rparr>,
         RequestInit_Method = Some \<lparr>HttpMethod_Type = Some (HttpMethod_Registered_w 0)\<rparr>,
         RequestInit_Scheme = None,
         RequestInit_Authority = ''example.com'',
         RequestInit_Path = ''/x''\<rparr>))\<rparr>\<rparr> [] =
   ''req id=1:2 proxy=in  src=10.0.0.1:80 dst=10.0.0.2:8080 tls= :method=GET :authority=example.com :path=/x''"
  by (simp add: eval_defs)

text \<open>
  C5: every ResponseEnd line is the same head (\<open>end\<close>, the stream id, the flow) and the
  same tail (\<open>duration\<close> in microseconds, \<open>response-length\<close> in bytes, the resource
  suffix) around the status clause of the specification: \<open>grpc-status=<name>\<close> for a gRPC
  status code, \<open>reset-error=<code>\<close> for a reset error code, and nothing when the event
  carries neither.
\<close>

theorem renderTapEvent_response_end_outcomes:
  assumes "GetEvent (Http event) = Some (TapEvent_Http_ResponseEnd_w resE)"
  shows "renderTapEvent addrString short event resource =
     ''end '' @ idText (ResponseEnd_GetId resE) @ '' '' @ flow addrString event
     @ spec_status_clause (GetEnd (GetEos resE))
     @ '' duration='' @ micros (GetSinceResponseInit resE) @ micro @ ''s''
     @ '' response-length='' @ dec_nat (unat (GetResponseBytes resE)) @ ''B''
     @ resources short event resource"
  using assms
  by (simp add: renderTapEvent_def spec_status_clause_def Let_def
      split: option.splits isEos_End.splits)

theorem renderTapEvent_response_end_outcomes_witness:
  "renderTapEvent PublicAddressToString example_short_name
     (example_event (TapEvent_Http_ResponseEnd_w (Some (example_response_end
        (Some \<lparr>Eos_End = Some (Eos_GrpcStatusCode 2)\<rparr>))))) [] =
     ''end id=1:2 proxy=in  src=10.0.0.1:80 dst=10.0.0.2:8080 tls= grpc-status=Unknown duration=3''
       @ micro @ ''s response-length=42B''
   \<and> renderTapEvent PublicAddressToString example_short_name
     (example_event (TapEvent_Http_ResponseEnd_w (Some (example_response_end
        (Some \<lparr>Eos_End = Some (Eos_ResetErrorCode 8)\<rparr>))))) [] =
     ''end id=1:2 proxy=in  src=10.0.0.1:80 dst=10.0.0.2:8080 tls= reset-error=8 duration=3''
       @ micro @ ''s response-length=42B''
   \<and> renderTapEvent PublicAddressToString example_short_name
     (example_event (TapEvent_Http_ResponseEnd_w (Some (example_response_end None)))) [] =
     ''end id=1:2 proxy=in  src=10.0.0.1:80 dst=10.0.0.2:8080 tls= duration=3''
       @ micro @ ''s response-length=42B''"
proof -
  have h: "GetEvent (Http (example_event (TapEvent_Http_ResponseEnd_w resE))) =
      Some (TapEvent_Http_ResponseEnd_w resE)" for resE
    by (simp add: example_event_def GetEvent_def)
  have f: "flow PublicAddressToString (example_event payload) =
      ''proxy=in  src=10.0.0.1:80 dst=10.0.0.2:8080 tls=''" for payload
    by (simp add: eval_defs)
  have i: "idText (ResponseEnd_GetId (Some (example_response_end eos))) = ''id=1:2''" for eos
    by (simp add: eval_defs)
  have d: "micros (GetSinceResponseInit (Some (example_response_end eos))) = ''3''" for eos
    by (simp add: eval_defs)
  have b: "dec_nat (unat (GetResponseBytes (Some (example_response_end eos)))) = ''42''" for eos
    by (simp add: eval_defs)
  have e: "GetEos (Some (example_response_end eos)) = eos" for eos
    by (simp add: GetEos_def example_response_end_def)
  have c1: "spec_status_clause (GetEnd (Some \<lparr>Eos_End = Some (Eos_GrpcStatusCode 2)\<rparr>)) =
      '' grpc-status=Unknown''"
    by (simp add: eval_defs)
  have c2: "spec_status_clause (GetEnd (Some \<lparr>Eos_End = Some (Eos_ResetErrorCode 8)\<rparr>)) =
      '' reset-error=8''"
    by (simp add: eval_defs)
  have c3: "spec_status_clause (GetEnd None) = []"
    by (simp add: eval_defs)
  show ?thesis
    using renderTapEvent_response_end_outcomes [OF h, of PublicAddressToString example_short_name
              "Some (example_response_end (Some \<lparr>Eos_End = Some (Eos_GrpcStatusCode 2)\<rparr>))" "[]"]
          renderTapEvent_response_end_outcomes [OF h, of PublicAddressToString example_short_name
              "Some (example_response_end (Some \<lparr>Eos_End = Some (Eos_ResetErrorCode 8)\<rparr>))" "[]"]
          renderTapEvent_response_end_outcomes [OF h, of PublicAddressToString example_short_name
              "Some (example_response_end None)" "[]"]
    by (simp add: f i d b e c1 c2 c3 resources_compact)
qed

text \<open>
  C6: the text that the Address Codec produces parses back, with the standard library's
  \<open>ParseIP\<close>, to the address it was made from. For every nonzero IPv4 value the
  dotted-decimal text parses to the address whose four bytes are the big-endian bytes of
  the value, and these bytes read as a big-endian 32-bit number are the value. For every
  IPv6 pair the text parses to the 16 bytes of the pair, first half and last half in
  big-endian order (an IPv4-mapped pair is printed in dotted decimal, which \<open>ParseIP\<close>
  reads back as the same 16 bytes).
\<close>

theorem getIPAddress_round_trip:
  "(v \<noteq> 0 \<longrightarrow>
      ParseIP (getIPAddress (Some \<lparr>IPAddress_Ip = Some (IPAddress_Ipv4 v)\<rparr>)) =
        Some (IPv4 (PutUint32 v))
      \<and> To4 (IPv4 (PutUint32 v)) = Some (PutUint32 v)
      \<and> Uint32 (PutUint32 v) = v)
   \<and> ParseIP (getIPAddress
        (Some \<lparr>IPAddress_Ip = Some (IPAddress_Ipv6 (Some \<lparr>First = hi, Last = lo\<rparr>))\<rparr>)) =
      Some (PutUint64 hi @ PutUint64 lo)"
proof -
  have v4: "getIPAddress (Some \<lparr>IPAddress_Ip = Some (IPAddress_Ipv4 v)\<rparr>) =
      IP_String (PutUint32 v)" if "v \<noteq> 0"
    using that by (simp add: getIPAddress_def GetIpv6_def GetIpv4_def)
  have v6: "getIPAddress
        (Some \<lparr>IPAddress_Ip = Some (IPAddress_Ipv6 (Some \<lparr>First = hi, Last = lo\<rparr>))\<rparr>) =
      IP_String (PutUint64 hi @ PutUint64 lo)"
    by (simp add: getIPAddress_def GetIpv6_def GetFirst_def GetLast_def)
  have l16: "length (PutUint64 hi @ PutUint64 lo) = 16"
    by (simp add: length_PutUint64)
  show ?thesis
    using ParseIP_IP_String_4 [OF length_PutUint32, of v] Uint32_PutUint32 [of v]
      ParseIP_IP_String_16 [OF l16]
    by (simp add: v4 v6)
qed

theorem getIPAddress_round_trip_witness:
  "ParseIP (getIPAddress (Some \<lparr>IPAddress_Ip = Some (IPAddress_Ipv4 0x0A000001)\<rparr>)) =
     Some [0, 0, 0, 0, 0, 0, 0, 0, 0, 0, 0xff, 0xff, 10, 0, 0, 1]
   \<and> Uint32 [10, 0, 0, 1] = 0x0A000001
   \<and> ParseIP (getIPAddress (Some \<lparr>IPAddress_Ip = Some (IPAddress_Ipv6
        (Some \<lparr>First = 0x20010db800000000, Last = 1\<rparr>))\<rparr>)) =
     Some [0x20, 0x01, 0x0d, 0xb8, 0, 0, 0, 0, 0, 0, 0, 0, 0, 0, 0, 1]"
proof -
  have n: "(0x0A000001 :: 32 word) \<noteq> 0" by simp
  have p: "PutUint32 0x0A000001 = [10, 0, 0, 1]"
    by (simp add: PutUint32_def)
  have q: "PutUint64 0x20010db800000000 @ PutUint64 1 =
      [0x20, 0x01, 0x0d, 0xb8, 0, 0, 0, 0, 0, 0, 0, 0, 0, 0, 0, 1]"
    by (simp add: PutUint64_def)
  show ?thesis
    using getIPAddress_round_trip [of "0x0A000001" "0x20010db800000000" 1] n
    by (simp add: p q IPv4_def v4InV6Prefix_def)
qed

text \<open>
  C7: what \<open>formatResource\<close> returns for a peer is \<open> <dir>_res=<kind>/<name>\<close> when the
  peer's labels have the resource kind as a key (the kind under its short name when the
  table has one), else \<open> <dir>_pod=<pod>\<close> when they have a pod label, followed by
  \<open> <dir>_ns=<ns>\<close> when they have a namespace label and the kind is not \<open>namespace\<close>.
  In wide mode (nonempty resource kind) the line of an event with a lifecycle payload is
  its compact line followed by this annotation of the source, that of the destination, and
  the route labels.
\<close>

theorem renderTapEvent_wide_annotations:
  "formatResource short p kind =
     spec_res_annotation short (direction p) (labels p) kind
     @ spec_ns_annotation (direction p) (labels p) kind
   \<and> (resource \<noteq> [] \<and> GetEvent (Http event) \<noteq> None \<longrightarrow>
     renderTapEvent addrString short event resource =
       renderTapEvent addrString short event []
       @ spec_res_annotation short ''src'' (EndpointMeta_GetLabels (SourceMeta event)) resource
       @ spec_ns_annotation ''src'' (EndpointMeta_GetLabels (SourceMeta event)) resource
       @ spec_res_annotation short ''dst'' (EndpointMeta_GetLabels (DestinationMeta event)) resource
       @ spec_ns_annotation ''dst'' (EndpointMeta_GetLabels (DestinationMeta event)) resource
       @ routeLabels event)"
proof (intro conjI impI)
  show "formatResource short p kind =
     spec_res_annotation short (direction p) (labels p) kind
     @ spec_ns_annotation (direction p) (labels p) kind"
    by (rule formatResource_spec)
next
  assume a: "resource \<noteq> [] \<and> GetEvent (Http event) \<noteq> None"
  have r: "resources short event resource =
     spec_res_annotation short ''src'' (EndpointMeta_GetLabels (SourceMeta event)) resource
     @ spec_ns_annotation ''src'' (EndpointMeta_GetLabels (SourceMeta event)) resource
     @ spec_res_annotation short ''dst'' (EndpointMeta_GetLabels (DestinationMeta event)) resource
     @ spec_ns_annotation ''dst'' (EndpointMeta_GetLabels (DestinationMeta event)) resource
     @ routeLabels event"
    using a by (simp add: resources_def formatResource_spec src_def dst_def)
  from a obtain payload where p: "GetEvent (Http event) = Some payload" by auto
  show "renderTapEvent addrString short event resource =
       renderTapEvent addrString short event []
       @ spec_res_annotation short ''src'' (EndpointMeta_GetLabels (SourceMeta event)) resource
       @ spec_ns_annotation ''src'' (EndpointMeta_GetLabels (SourceMeta event)) resource
       @ spec_res_annotation short ''dst'' (EndpointMeta_GetLabels (DestinationMeta event)) resource
       @ spec_ns_annotation ''dst'' (EndpointMeta_GetLabels (DestinationMeta event)) resource
       @ routeLabels event"
    unfolding renderTapEvent_def Let_def r resources_compact p
    by (simp split: option.splits isTapEvent_Http_Event.splits isEos_End.splits)
qed

theorem renderTapEvent_wide_annotations_witness:
  "renderTapEvent PublicAddressToString example_short_name example_wide_event ''deployment'' =
     ''req id=1:2 proxy=out src=10.0.0.1:80 dst=10.0.0.2:8080 tls= :method=GET :authority=example.com :path=/x''
     @ '' src_res=deploy/web'' @ '' src_ns=prod'' @ '' dst_pod=db-0'' @ [] @ '' rt_route=r1''"
proof -
  have a: "''deployment'' \<noteq> []" by simp
  have b: "GetEvent (Http example_wide_event) \<noteq> None"
    by (simp add: example_wide_event_def GetEvent_def)
  have c: "renderTapEvent PublicAddressToString example_short_name example_wide_event [] =
     ''req id=1:2 proxy=out src=10.0.0.1:80 dst=10.0.0.2:8080 tls= :method=GET :authority=example.com :path=/x''"
    by (simp add: eval_defs)
  have d: "spec_res_annotation example_short_name ''src''
      (EndpointMeta_GetLabels (SourceMeta example_wide_event)) ''deployment'' = '' src_res=deploy/web''"
    by (simp add: eval_defs)
  have e: "spec_ns_annotation ''src''
      (EndpointMeta_GetLabels (SourceMeta example_wide_event)) ''deployment'' = '' src_ns=prod''"
    by (simp add: eval_defs)
  have f: "spec_res_annotation example_short_name ''dst''
      (EndpointMeta_GetLabels (DestinationMeta example_wide_event)) ''deployment'' = '' dst_pod=db-0''"
    by (simp add: eval_defs)
  have g: "spec_ns_annotation ''dst''
      (EndpointMeta_GetLabels (DestinationMeta example_wide_event)) ''deployment'' = []"
    by (simp add: eval_defs)
  have h: "routeLabels example_wide_event = '' rt_route=r1''"
    by (simp add: eval_defs)
  show ?thesis
    using renderTapEvent_wide_annotations
      [of example_short_name "src example_wide_event" "''deployment''" "''deployment''"
          example_wide_event PublicAddressToString] a b
    unfolding c d e f g h by blast
qed

text \<open>
  C8: for every display event, the JSON document has the key of a lifecycle sub-record
  (\<open>requestInitEvent\<close>, \<open>responseInitEvent\<close>, \<open>responseEndEvent\<close>) exactly when that
  sub-record is present; no key occurs twice, and none of the three keys is ever given
  the value \<open>null\<close>. The JSON renderer's output is this document of the mapped event.
\<close>

theorem json_lifecycle_keys:
  "distinct (object_keys (marshal_tapEvent m))
   \<and> (''requestInitEvent'' \<in> set (object_keys (marshal_tapEvent m))) = (RequestInitEvent m \<noteq> None)
   \<and> (''responseInitEvent'' \<in> set (object_keys (marshal_tapEvent m))) = (ResponseInitEvent m \<noteq> None)
   \<and> (''responseEndEvent'' \<in> set (object_keys (marshal_tapEvent m))) = (ResponseEndEvent m \<noteq> None)
   \<and> (''requestInitEvent'', JNull) \<notin> set (object_fields (marshal_tapEvent m))
   \<and> (''responseInitEvent'', JNull) \<notin> set (object_fields (marshal_tapEvent m))
   \<and> (''responseEndEvent'', JNull) \<notin> set (object_fields (marshal_tapEvent m))
   \<and> renderTapEventJSON event unused = marshal_tapEvent (mapPublicToDisplayTapEvent event)"
  by (cases "RequestInitEvent m"; cases "ResponseInitEvent m"; cases "ResponseEndEvent m")
    (simp_all add: marshal_tapEvent_def object_keys_def marshal_sub_not_null
      marshal_sub_not_null [THEN not_sym] renderTapEventJSON_def)

text \<open>
  C9: when the decoder yields the events \<open>evs\<close> and then an error \<open>e\<close>, and the writer
  takes every line, the loop returns, and it returns no error, whether \<open>e\<close> is the
  end-of-input signal or another decode failure; standard error receives \<open>e\<close> only in the
  second case. \<open>writeTapEventsToBuffer\<close> then flushes: the writer holds nothing back and
  its output is what was written before, followed by the rendered line of every event of
  \<open>evs\<close>, in order.
\<close>

theorem renderTapEvents_terminates_on_signal:
  assumes "validate options = None" and "length evs \<le> n"
  shows "renderTapEvents (map Inr evs @- SCons (Inl e) rest) (NewWriter written n) stderr
           render resource =
         Some (None,
               \<lparr>held = map (\<lambda>ev. render ev resource) evs, out = written, room = n - length evs\<rparr>,
               if e = io_EOF then stderr else stderr @ [e])
     \<and> writeTapEventsToBuffer addrString short written n (map Inr evs @- SCons (Inl e) rest)
           stderr req options =
         Some (None,
               \<lparr>held = [], out = written @ map (selected_line addrString short req options) evs,
                room = n - length evs\<rparr>,
               if e = io_EOF then stderr else stderr @ [e])"
proof -
  have w: "length evs \<le> room (NewWriter written n)"
    using assms(2) by (simp add: NewWriter_def)
  have loop: "renderTapEvents (map Inr evs @- SCons (Inl e) rest) (NewWriter written n) stderr
           r res =
         Some (None, \<lparr>held = map (\<lambda>ev. r ev res) evs, out = written, room = n - length evs\<rparr>,
               if e = io_EOF then stderr else stderr @ [e])" for r res
    using renderTapEvents_signal [OF w, of e rest stderr r res] by (simp add: NewWriter_def)
  from assms(1) have "tapOptions_output options = [] \<or> tapOptions_output options = wideOutput
      \<or> tapOptions_output options = jsonOutput"
    by (simp add: validate_def split: if_splits)
  then have "writeTapEventsToBuffer addrString short written n (map Inr evs @- SCons (Inl e) rest)
           stderr req options =
         Some (None,
               \<lparr>held = [], out = written @ map (selected_line addrString short req options) evs,
                room = n - length evs\<rparr>,
               if e = io_EOF then stderr else stderr @ [e])"
    unfolding writeTapEventsToBuffer_def Let_def loop
    by (auto simp: Flush_def selected_line_def wideOutput_def jsonOutput_def)
  with loop show ?thesis by simp
qed

theorem renderTapEvents_terminates_on_signal_witness:
  "writeTapEventsToBuffer PublicAddressToString example_short_name [] 5
     (map Inr [example_event (TapEvent_Http_RequestInit_w (Some example_request_init))]
        @- SCons (Inl (other_error ''unexpected EOF'')) (sconst (Inl io_EOF)))
     [] \<lparr>Target = None\<rparr> \<lparr>tapOptions_output = []\<rparr> =
   Some (None,
         \<lparr>held = [],
          out = [Text ''req id=1:2 proxy=in  src=10.0.0.1:80 dst=10.0.0.2:8080 tls= :method=GET :authority=example.com :path=/x''],
          room = 4\<rparr>,
         [other_error ''unexpected EOF''])
   \<and> writeTapEventsToBuffer PublicAddressToString example_short_name [] 5
     (map Inr [example_event (TapEvent_Http_RequestInit_w (Some example_request_init))]
        @- SCons (Inl io_EOF) (sconst (Inl io_EOF)))
     [] \<lparr>Target = None\<rparr> \<lparr>tapOptions_output = []\<rparr> =
   Some (None,
         \<lparr>held = [],
          out = [Text ''req id=1:2 proxy=in  src=10.0.0.1:80 dst=10.0.0.2:8080 tls= :method=GET :authority=example.com :path=/x''],
          room = 4\<rparr>,
         [])"
proof -
  have v: "validate \<lparr>tapOptions_output = []\<rparr> = None"
    by (simp add: validate_def)
  have l: "length [example_event (TapEvent_Http_RequestInit_w (Some example_request_init))] \<le> 5"
    by simp
  have s: "selected_line PublicAddressToString example_short_name \<lparr>Target = None\<rparr>
      \<lparr>tapOptions_output = []\<rparr>
      (example_event (TapEvent_Http_RequestInit_w (Some example_request_init))) =
      Text ''req id=1:2 proxy=in  src=10.0.0.1:80 dst=10.0.0.2:8080 tls= :method=GET :authority=example.com :path=/x''"
    by (simp add: selected_line_def example_request_line)
  show ?thesis
    using renderTapEvents_terminates_on_signal [OF v l, of "other_error ''unexpected EOF''"
              "sconst (Inl io_EOF)" "[]" "[]" "\<lambda>ev res. Text []" "[]"
              PublicAddressToString example_short_name "\<lparr>Target = None\<rparr>"]
          renderTapEvents_terminates_on_signal [OF v l, of io_EOF
              "sconst (Inl io_EOF)" "[]" "[]" "\<lambda>ev res. Text []" "[]"
              PublicAddressToString example_short_name "\<lparr>Target = None\<rparr>"]
    by (simp add: s)
qed

text \<open>
  C10: for every ResponseEnd message, the sub-record built by \<open>getResponseEndEvent\<close> has
  as \<open>GrpcStatusCode\<close> the gRPC code when the end-of-stream outcome is a gRPC status and 0
  otherwise, and as \<open>ResetErrorCode\<close> the reset code when the outcome is a reset error and
  0 otherwise, so that one of the two is always 0. When the outcome is the gRPC status 0,
  the JSON object of the sub-record has neither key, and the whole JSON document is the
  one of the same event without any end-of-stream detail.
\<close>

theorem getResponseEndEvent_codes:
  assumes "Http event = Some \<lparr>Http_Event = Some (TapEvent_Http_ResponseEnd_w (Some resE))\<rparr>"
  shows "\<exists>r. getResponseEndEvent (Http event) = Some r
     \<and> responseEndEvent_GrpcStatusCode r =
         (case GetEnd (ResponseEnd_Eos resE) of Some (Eos_GrpcStatusCode c) \<Rightarrow> c | _ \<Rightarrow> 0)
     \<and> responseEndEvent_ResetErrorCode r =
         (case GetEnd (ResponseEnd_Eos resE) of Some (Eos_ResetErrorCode c) \<Rightarrow> c | _ \<Rightarrow> 0)
     \<and> (responseEndEvent_GrpcStatusCode r = 0 \<or> responseEndEvent_ResetErrorCode r = 0)
     \<and> (GetEnd (ResponseEnd_Eos resE) = Some (Eos_GrpcStatusCode 0) \<longrightarrow>
          ''grpcStatusCode'' \<notin> set (object_keys (marshal_responseEndEvent r))
          \<and> ''resetErrorCode'' \<notin> set (object_keys (marshal_responseEndEvent r))
          \<and> renderTapEventJSON event unused =
              renderTapEventJSON
                (event\<lparr>Http := Some \<lparr>Http_Event = Some (TapEvent_Http_ResponseEnd_w
                   (Some (resE\<lparr>ResponseEnd_Eos := None\<rparr>)))\<rparr>\<rparr>) unused)"
  using assms
  by (auto simp: getResponseEndEvent_def GetResponseEnd_def GetEvent_def GetEos_def
      GetGrpcStatusCode_def GetResetErrorCode_def GetEnd_def Let_def
      ResponseEnd_GetId_def ResponseEnd_GetSinceRequestInit_def GetSinceResponseInit_def
      GetResponseBytes_def marshal_responseEndEvent_def object_keys_def
      renderTapEventJSON_def mapPublicToDisplayTapEvent_def
      getRequestInitEvent_def getResponseInitEvent_def GetRequestInit_def GetResponseInit_def
      split: option.splits isEos_End.splits)

theorem getResponseEndEvent_codes_witness:
  "renderTapEventJSON
     (example_event (TapEvent_Http_ResponseEnd_w (Some (example_response_end
        (Some \<lparr>Eos_End = Some (Eos_GrpcStatusCode 0)\<rparr>))))) [] =
   renderTapEventJSON
     (example_event (TapEvent_Http_ResponseEnd_w (Some (example_response_end None)))) []"
proof -
  have h: "Http (example_event (TapEvent_Http_ResponseEnd_w (Some (example_response_end
        (Some \<lparr>Eos_End = Some (Eos_GrpcStatusCode 0)\<rparr>))))) =
      Some \<lparr>Http_Event = Some (TapEvent_Http_ResponseEnd_w (Some (example_response_end
        (Some \<lparr>Eos_End = Some (Eos_GrpcStatusCode 0)\<rparr>))))\<rparr>"
    by (simp add: example_event_def)
  have g: "GetEnd (ResponseEnd_Eos (example_response_end
        (Some \<lparr>Eos_End = Some (Eos_GrpcStatusCode 0)\<rparr>))) = Some (Eos_GrpcStatusCode 0)"
    by (simp add: example_response_end_def GetEnd_def)
  have u: "(example_event (TapEvent_Http_ResponseEnd_w (Some (example_response_end
        (Some \<lparr>Eos_End = Some (Eos_GrpcStatusCode 0)\<rparr>)))))
      \<lparr>Http := Some \<lparr>Http_Event = Some (TapEvent_Http_ResponseEnd_w
         (Some ((example_response_end (Some \<lparr>Eos_End = Some (Eos_GrpcStatusCode 0)\<rparr>))
            \<lparr>ResponseEnd_Eos := None\<rparr>)))\<rparr>\<rparr> =
      example_event (TapEvent_Http_ResponseEnd_w (Some (example_response_end None)))"
    by (simp add: example_event_def example_response_end_def)
  show ?thesis
    using getResponseEndEvent_codes [OF h, of "[]"] g u by auto
qed

end
